theory Spec2Isabelle
  imports Main "HOL-Library.AList" "HOL-Library.Word"
begin

section \<open>Values exchanged with the platform\<close>

text \<open>
  A parsed JSON value, as \<open>JSON.parse\<close> returns it. An object is the list of its own
  properties in property order. A number is the 64 bits of its double: sign, eleven bits
  of exponent, fifty-two of fraction.
\<close>

datatype json =
    JNull
  | JBool bool
  | JNumber "64 word"
  | JString string
  | JArray "json list"
  | JObject "(string \<times> json) list"

text \<open>
  \<open>JSON.stringify\<close>, up to the spelling of the text: the result is the value that
  the text produced denotes (what \<open>JSON.parse\<close> reads back from it). A number that
  is not finite (exponent bits all set, as \<open>1e999\<close> parses to) is written
  \<open>null\<close>, negative zero is written \<open>0\<close>, every other number is written so
  that it reads back as the same double; strings, booleans and \<open>null\<close> are written
  as they are, arrays and objects element by element in their order.
\<close>

definition non_finite :: "64 word \<Rightarrow> bool" where
  "non_finite n = (take_bit 11 (drop_bit 52 n) = (2047 :: 64 word))"

definition negative_zero :: "64 word" where
  "negative_zero = push_bit 63 1"

fun JSON_stringify :: "json \<Rightarrow> json" where
  "JSON_stringify (JNumber n) =
     (if non_finite n then JNull else if n = negative_zero then JNumber 0 else JNumber n)"
| "JSON_stringify (JArray xs) = JArray (map JSON_stringify xs)"
| "JSON_stringify (JObject kvs) = JObject (map (\<lambda>(k, v). (k, JSON_stringify v)) kvs)"
| "JSON_stringify v = v"

text \<open>The values that \<open>JSON.stringify\<close> writes unchanged: no number inside is
  non-finite or a negative zero.\<close>

fun plain :: "json \<Rightarrow> bool" where
  "plain (JNumber n) = (\<not> non_finite n \<and> n \<noteq> negative_zero)"
| "plain (JArray xs) = list_all plain xs"
| "plain (JObject kvs) = list_all (\<lambda>(k, v). plain v) kvs"
| "plain v = True"

text \<open>The exceptions that the message path can raise.\<close>

datatype js_error = SyntaxError | TypeError

text \<open>
  Console output, one constructor per \<open>console.log\<close> / \<open>console.error\<close> call
  of \<open>server.js\<close>, carrying the values interpolated into the line.
\<close>

datatype log =
    SessionCreated string
  | WsConnection "string option" "string option"
  | HostConnected string
  | GuestConnected string
  | ErrorParsing js_error
  | Disconnected string string
  | SessionCleanedUp string
  | MessageFrom string "json option"
  | TargetNotConnected string
  | SessionTimedOut string

section \<open>Transports\<close>

text \<open>
  A WebSocket of the \<open>ws\<close> package, seen from the server: its \<open>readyState\<close>
  (1 is OPEN, 2 CLOSING, 3 CLOSED), the texts that went out through \<open>send\<close>
  (oldest first), each given by the JSON value it denotes, and the \<open>close\<close> calls
  made on it with their status code and reason.
\<close>

record socket =
  readyState :: nat
  outbox :: "json list"
  closes :: "(nat option \<times> string option) list"

section \<open>Sessions and the server state\<close>

text \<open>The session object of \<open>server.js\<close>; times are milliseconds since the epoch.\<close>

record session =
  id_session :: string
  hostId :: string
  guestId :: "string option"
  hostWs :: "nat option"
  guestWs :: "nat option"
  createdAt :: int
  lastActivity :: int

text \<open>
  The server state. Session objects live in \<open>heap\<close> under their allocation number,
  because the \<open>sessions\<close> map and the handlers of every connection share them:
  a session deleted from the map is still reached by the handlers that captured it.
  \<open>sessions\<close> is the JavaScript \<open>Map\<close> in insertion order. \<open>timeouts\<close> holds
  the pending \<open>setTimeout\<close> calls: delay in milliseconds and the captured session
  and session id.
\<close>

record world =
  sessions :: "(string \<times> nat) list"
  heap :: "nat \<Rightarrow> session"
  next_addr :: nat
  sockets :: "nat \<Rightarrow> socket"
  timeouts :: "(nat \<times> nat \<times> string) list"
  console :: "log list"

definition console_log :: "world \<Rightarrow> log \<Rightarrow> world" where
  "console_log w l = w\<lparr>console := console w @ [l]\<rparr>"

text \<open>
  \<open>ws.send\<close>: the text goes out when the socket is OPEN and is dropped otherwise
  (a server-side socket is never CONNECTING).
\<close>

definition ws_send :: "world \<Rightarrow> nat \<Rightarrow> json \<Rightarrow> world" where
  "ws_send w h v =
     (if readyState (sockets w h) = 1
      then w\<lparr>sockets := (sockets w)(h := (sockets w h)\<lparr>outbox := outbox (sockets w h) @ [v]\<rparr>)\<rparr>
      else w)"

text \<open>\<open>ws.close\<close>: the call is recorded and a socket that is not yet CLOSED is CLOSING.\<close>

definition ws_close :: "world \<Rightarrow> nat \<Rightarrow> nat option \<Rightarrow> string option \<Rightarrow> world" where
  "ws_close w h code reason =
     w\<lparr>sockets := (sockets w)(h := (sockets w h)
         \<lparr>readyState := (if readyState (sockets w h) = 3 then 3 else 2),
          closes := closes (sockets w h) @ [(code, reason)]\<rparr>)\<rparr>"

section \<open>Session creation\<close>

text \<open>\<open>toUpperCase\<close> on the ASCII range, which is where UUID characters lie.\<close>

definition toUpperCase_char :: "char \<Rightarrow> char" where
  "toUpperCase_char c =
     (if (97::nat) \<le> of_char c \<and> (of_char c :: nat) \<le> 122
      then char_of ((of_char c :: nat) - 32) else c)"

definition toUpperCase :: "string \<Rightarrow> string" where
  "toUpperCase s = map toUpperCase_char s"

record create_response =
  r_sessionId :: string
  r_hostId :: string
  r_guestUrl :: string

text \<open>
  \<open>app.post('/api/session/create')\<close>. The two \<open>uuidv4()\<close> results and the two
  clock readings are inputs; \<open>guest_url\<close> is \<open>process.env.GUEST_URL\<close>.
\<close>

definition create_session ::
  "string option \<Rightarrow> world \<Rightarrow> string \<Rightarrow> string \<Rightarrow> int \<Rightarrow> int \<Rightarrow> world \<times> create_response" where
  "create_session guest_url w uuid1 uuid2 now1 now2 =
     (let sessionId = toUpperCase (take 8 uuid1);
          session = \<lparr>id_session = sessionId, hostId = uuid2, guestId = None,
                     hostWs = None, guestWs = None,
                     createdAt = now1, lastActivity = now2\<rparr>;
          a = next_addr w;
          w1 = w\<lparr>sessions := AList.update sessionId a (sessions w),
                 heap := (heap w)(a := session),
                 next_addr := Suc a\<rparr>;
          base = (case guest_url of None \<Rightarrow> ''http://localhost:3001''
                  | Some u \<Rightarrow> if u = [] then ''http://localhost:3001'' else u)
      in (console_log w1 (SessionCreated sessionId),
          \<lparr>r_sessionId = sessionId, r_hostId = uuid2,
           r_guestUrl = base @ ''/join/'' @ sessionId\<rparr>))"

text \<open>A run of creation requests, each with its UUIDs and clock readings.\<close>

fun create_all ::
  "string option \<Rightarrow> world \<Rightarrow> (string \<times> string \<times> int \<times> int) list \<Rightarrow> world \<times> create_response list" where
  "create_all guest_url w [] = (w, [])"
| "create_all guest_url w ((uuid1, uuid2, now1, now2) # rs) =
     (case create_session guest_url w uuid1 uuid2 now1 now2 of
        (w1, r) \<Rightarrow> (case create_all guest_url w1 rs of (w2, out) \<Rightarrow> (w2, r # out)))"

text \<open>The state at start-up: no session, no pending timer, every socket still unused.\<close>

definition blank_session :: session where
  "blank_session = \<lparr>id_session = [], hostId = [], guestId = None, hostWs = None,
                     guestWs = None, createdAt = 0, lastActivity = 0\<rparr>"

definition initial_world :: world where
  "initial_world = \<lparr>sessions = [], heap = (\<lambda>_. blank_session), next_addr = 0,
                     sockets = (\<lambda>_. \<lparr>readyState = 1, outbox = [], closes = []\<rparr>),
                     timeouts = [], console = []\<rparr>"

text \<open>The characters of a version-4 UUID as \<open>uuidv4()\<close> prints it.\<close>

definition uuid_char :: "char \<Rightarrow> bool" where
  "uuid_char c = (c \<in> set ''0123456789abcdef-'')"


section \<open>The connection handler\<close>

text \<open>JavaScript's \<open>!x\<close> on a query parameter or an id: absent or the empty string.\<close>

definition falsy :: "string option \<Rightarrow> bool" where
  "falsy x = (x = None \<or> x = Some [])"

definition update_session :: "world \<Rightarrow> nat \<Rightarrow> (session \<Rightarrow> session) \<Rightarrow> world" where
  "update_session w a f = w\<lparr>heap := (heap w)(a := f (heap w a))\<rparr>"

definition json_of_id :: "string option \<Rightarrow> json" where
  "json_of_id x = (case x of None \<Rightarrow> JNull | Some g \<Rightarrow> JString g)"

definition guest_joined :: "string option \<Rightarrow> string \<Rightarrow> json" where
  "guest_joined g ts =
     JObject [(''type'', JString ''guest_joined''), (''guestId'', json_of_id g),
              (''timestamp'', JString ts)]"

definition connected_msg :: "string \<Rightarrow> string \<Rightarrow> string \<Rightarrow> json" where
  "connected_msg role sessionId ts =
     JObject [(''type'', JString ''connected''), (''role'', JString role),
              (''sessionId'', JString sessionId), (''timestamp'', JString ts)]"

definition left_msg :: "string \<Rightarrow> string \<Rightarrow> json" where
  "left_msg ty ts = JObject [(''type'', JString ty), (''timestamp'', JString ts)]"

text \<open>
  What the handlers registered on a connection capture: the socket, the session object,
  the role and the session id.
\<close>

record conn =
  c_ws :: nat
  c_session :: nat
  c_role :: string
  c_sessionId :: string

text \<open>The \<open>role === 'guest'\<close> branch: assign the guest id once, bind, tell a live host.\<close>

definition attach_guest :: "world \<Rightarrow> nat \<Rightarrow> nat \<Rightarrow> string \<Rightarrow> string \<Rightarrow> string \<Rightarrow> world" where
  "attach_guest w ws a sessionId uuid ts =
     (let w1 = (if falsy (guestId (heap w a))
                then update_session w a (\<lambda>s. s\<lparr>guestId := Some uuid\<rparr>) else w);
          w2 = update_session w1 a (\<lambda>s. s\<lparr>guestWs := Some ws\<rparr>);
          w3 = console_log w2 (GuestConnected sessionId)
      in case hostWs (heap w3 a) of
           None \<Rightarrow> w3
         | Some h \<Rightarrow>
             if readyState (sockets w3 h) = 1
             then ws_send w3 h (JSON_stringify (guest_joined (guestId (heap w3 a)) ts))
             else w3)"

text \<open>The tail of the handler, reached by every attempt that was not turned away.\<close>

definition confirm_connection ::
  "world \<Rightarrow> nat \<Rightarrow> nat \<Rightarrow> string \<Rightarrow> string \<Rightarrow> int \<Rightarrow> string \<Rightarrow> world \<times> conn option" where
  "confirm_connection w ws a role sessionId now ts =
     (let w1 = update_session w a (\<lambda>s. s\<lparr>lastActivity := now\<rparr>);
          w2 = ws_send w1 ws (JSON_stringify (connected_msg role sessionId ts))
      in (w2, Some \<lparr>c_ws = ws, c_session = a, c_role = role, c_sessionId = sessionId\<rparr>))"

text \<open>
  \<open>wss.on('connection')\<close>. The three query parameters are absent (\<open>None\<close>) or
  strings; \<open>uuid\<close> is the \<open>uuidv4()\<close> drawn for a first guest; \<open>ts_joined\<close>,
  \<open>now\<close> and \<open>ts_connected\<close> are the clock readings in the order the handler makes
  them. The result carries the captured connection when the handlers were registered and
  \<open>None\<close> when the attempt was turned away. The keep-alive interval (a ping every
  thirty seconds while the socket is OPEN) is left out: it writes to no session and sends
  no message; the answer to a ping is \<open>on_pong\<close> below.
\<close>

definition connection ::
  "world \<Rightarrow> nat \<Rightarrow> string option \<Rightarrow> string option \<Rightarrow> string option \<Rightarrow>
   string \<Rightarrow> string \<Rightarrow> int \<Rightarrow> string \<Rightarrow> world \<times> conn option" where
  "connection w ws sessionId role clientId uuid ts_joined now ts_connected =
     (let w0 = console_log w (WsConnection role sessionId)
      in if falsy sessionId \<or> falsy role
         then (ws_close w0 ws (Some 1008) (Some ''Missing sessionId or role''), None)
         else
           (case (sessionId, role) of
              (Some sid, Some r) \<Rightarrow>
                (case map_of (sessions w0) sid of
                   None \<Rightarrow> (ws_close w0 ws (Some 1008) (Some ''Session not found''), None)
                 | Some a \<Rightarrow>
                     if r = ''host'' then
                       (if clientId \<noteq> Some (hostId (heap w0 a))
                        then (ws_close w0 ws (Some 1008) (Some ''Invalid host ID''), None)
                        else confirm_connection
                               (console_log (update_session w0 a (\<lambda>s. s\<lparr>hostWs := Some ws\<rparr>))
                                  (HostConnected sid))
                               ws a r sid now ts_connected)
                     else if r = ''guest'' then
                       confirm_connection (attach_guest w0 ws a sid uuid ts_joined)
                         ws a r sid now ts_connected
                     else confirm_connection w0 ws a r sid now ts_connected)
            | _ \<Rightarrow> (ws_close w0 ws (Some 1008) (Some ''Missing sessionId or role''), None)))"

text \<open>\<open>ws.on('pong')\<close>.\<close>

definition on_pong :: "world \<Rightarrow> conn \<Rightarrow> int \<Rightarrow> world" where
  "on_pong w c now = update_session w (c_session c) (\<lambda>s. s\<lparr>lastActivity := now\<rparr>)"

section \<open>The relay\<close>

text \<open>The decimal name of an array index, as a property key.\<close>

fun index_key :: "nat \<Rightarrow> string" where
  "index_key n =
     (if n < 10 then [char_of (48 + n)]
      else index_key (n div 10) @ [char_of (48 + n mod 10)])"

text \<open>
  The own enumerable properties that \<open>{...message}\<close> copies: those of an object, the
  elements of an array and the characters of a string under their indices, nothing for
  a number or a boolean.
\<close>

fun spread :: "json \<Rightarrow> (string \<times> json) list" where
  "spread (JObject kvs) = kvs"
| "spread (JArray xs) = zip (map index_key [0..<length xs]) xs"
| "spread (JString s) = zip (map index_key [0..<length s]) (map (\<lambda>c. JString [c]) s)"
| "spread _ = []"

text \<open>\<open>message.type\<close>, \<open>None\<close> for \<open>undefined\<close>.\<close>

fun type_of :: "json \<Rightarrow> json option" where
  "type_of (JObject kvs) = map_of kvs ''type''"
| "type_of _ = None"

text \<open>
  Whether \<open>`${type}`\<close> raises a TypeError. The template literal converts
  \<open>type\<close> to a string. An object is converted by its \<open>toString\<close> and, failing
  that, its \<open>valueOf\<close>: a parsed object that has a \<open>toString\<close> property of
  its own has one that cannot be called, and its \<open>valueOf\<close> is either its own
  (not callable) or the inherited one (which returns the object), so the conversion
  raises; without that property the inherited \<open>toString\<close> answers. An array is
  joined, which converts every element other than \<open>null\<close> in the same way.
  Nothing else raises, and neither does \<open>undefined\<close>.
\<close>

fun toString_raises :: "json \<Rightarrow> bool" where
  "toString_raises (JObject kvs) = (''toString'' \<in> set (map fst kvs))"
| "toString_raises (JArray xs) = list_ex toString_raises xs"
| "toString_raises v = False"

definition type_raises :: "json \<Rightarrow> bool" where
  "type_raises message = (case type_of message of None \<Rightarrow> False | Some t \<Rightarrow> toString_raises t)"

text \<open>The object handed to \<open>JSON.stringify\<close> on the forwarding path.\<close>

definition forwarded :: "json \<Rightarrow> string \<Rightarrow> string \<Rightarrow> json" where
  "forwarded message senderRole ts =
     JObject (AList.update ''timestamp'' (JString ts)
               (AList.update ''sender'' (JString senderRole) (spread message)))"

text \<open>
  \<open>handleMessage\<close>, with the clock readings \<open>now\<close> and \<open>ts\<close> as inputs. The result is
  the state the call leaves and the exception it raised, if any. Two steps can raise a
  TypeError, both after \<open>lastActivity\<close> has been written and before anything is
  sent: destructuring \<open>null\<close>, and building the console line when \<open>type\<close>
  cannot be converted to a string (the line is then not printed). Exhaustion of the
  call stack on values nested beyond what the platform allows is not modelled.
\<close>

definition handleMessage ::
  "world \<Rightarrow> nat \<Rightarrow> string \<Rightarrow> json \<Rightarrow> int \<Rightarrow> string \<Rightarrow> world \<times> js_error option" where
  "handleMessage w a senderRole message now ts =
     (let w1 = update_session w a (\<lambda>s. s\<lparr>lastActivity := now\<rparr>)
      in if message = JNull then (w1, Some TypeError)
         else if type_raises message then (w1, Some TypeError)
         else
           (let w2 = console_log w1 (MessageFrom senderRole (type_of message));
                targetWs = (if senderRole = ''host'' then guestWs (heap w2 a)
                            else hostWs (heap w2 a))
            in case targetWs of
                 None \<Rightarrow> (console_log w2 (TargetNotConnected (id_session (heap w2 a))), None)
               | Some t \<Rightarrow>
                   if readyState (sockets w2 t) \<noteq> 1
                   then (console_log w2 (TargetNotConnected (id_session (heap w2 a))), None)
                   else (ws_send w2 t (JSON_stringify (forwarded message senderRole ts)), None)))"

text \<open>
  \<open>ws.on('message')\<close>. \<open>parsed\<close> is the outcome of \<open>JSON.parse(data.toString())\<close>:
  \<open>None\<close> when it raises a SyntaxError. The second component of the result is the
  exception that leaves the handler.
\<close>

definition on_message ::
  "world \<Rightarrow> conn \<Rightarrow> json option \<Rightarrow> int \<Rightarrow> string \<Rightarrow> world \<times> js_error option" where
  "on_message w c parsed now ts =
     (case parsed of
        None \<Rightarrow> (console_log w (ErrorParsing SyntaxError), None)
      | Some message \<Rightarrow>
          (case handleMessage w (c_session c) (c_role c) message now ts of
             (w1, None) \<Rightarrow> (w1, None)
           | (w1, Some e) \<Rightarrow> (console_log w1 (ErrorParsing e), None)))"

section \<open>Disconnection and cleanup\<close>

text \<open>\<open>ws.on('close')\<close>; \<open>ts\<close> is the clock reading of the notification.\<close>

definition on_close :: "world \<Rightarrow> conn \<Rightarrow> string \<Rightarrow> world" where
  "on_close w c ts =
     (let a = c_session c;
          w0 = console_log w (Disconnected (c_role c) (c_sessionId c));
          w1 =
            (if c_role c = ''host'' then
               (let v = update_session w0 a (\<lambda>s. s\<lparr>hostWs := None\<rparr>)
                in case guestWs (heap v a) of
                     None \<Rightarrow> v
                   | Some g \<Rightarrow> if readyState (sockets v g) = 1
                              then ws_send v g (JSON_stringify (left_msg ''host_left'' ts)) else v)
             else if c_role c = ''guest'' then
               (let v = update_session w0 a (\<lambda>s. s\<lparr>guestWs := None\<rparr>)
                in case hostWs (heap v a) of
                     None \<Rightarrow> v
                   | Some h \<Rightarrow> if readyState (sockets v h) = 1
                              then ws_send v h (JSON_stringify (left_msg ''guest_left'' ts)) else v)
             else w0)
      in w1\<lparr>timeouts := timeouts w1 @ [(5 * 60 * 1000, a, c_sessionId c)]\<rparr>)"

text \<open>The callback of that \<open>setTimeout\<close>.\<close>

definition cleanup_empty :: "world \<Rightarrow> nat \<Rightarrow> string \<Rightarrow> world" where
  "cleanup_empty w a sessionId =
     (if hostWs (heap w a) = None \<and> guestWs (heap w a) = None
      then console_log (w\<lparr>sessions := AList.delete sessionId (sessions w)\<rparr>)
             (SessionCleanedUp sessionId)
      else w)"

text \<open>The event loop running the pending timeout at position \<open>i\<close>: it is removed, then called.\<close>

definition fire_timeout :: "world \<Rightarrow> nat \<Rightarrow> world" where
  "fire_timeout w i =
     (if i < length (timeouts w)
      then (case timeouts w ! i of
              (delay, a, sessionId) \<Rightarrow>
                cleanup_empty (w\<lparr>timeouts := take i (timeouts w) @ drop (Suc i) (timeouts w)\<rparr>)
                  a sessionId)
      else w)"

text \<open>One round of the \<open>for\<close> loop of the ten-minute interval.\<close>

definition sweep_step :: "int \<Rightarrow> string \<times> nat \<Rightarrow> world \<Rightarrow> world" where
  "sweep_step now e w =
     (case e of (sessionId, a) \<Rightarrow>
        if now - lastActivity (heap w a) > 30 * 60 * 1000 then
          (let w1 = (case hostWs (heap w a) of None \<Rightarrow> w | Some h \<Rightarrow> ws_close w h None None);
               w2 = (case guestWs (heap w1 a) of None \<Rightarrow> w1 | Some g \<Rightarrow> ws_close w1 g None None)
           in console_log (w2\<lparr>sessions := AList.delete sessionId (sessions w2)\<rparr>)
                (SessionTimedOut sessionId))
        else w)"

text \<open>
  The interval callback. Deleting the entry being visited does not disturb the iteration
  of a \<open>Map\<close>, so the loop visits the entries present when it starts.
\<close>

definition sweep :: "world \<Rightarrow> int \<Rightarrow> world" where
  "sweep w now = fold (sweep_step now) (sessions w) w"

text \<open>\<open>app.get('/api/session/:sessionId')\<close>: \<open>None\<close> is the 404 answer.\<close>

definition session_info :: "world \<Rightarrow> string \<Rightarrow> (string \<times> bool \<times> bool \<times> int) option" where
  "session_info w sessionId =
     (case map_of (sessions w) sessionId of
        None \<Rightarrow> None
      | Some a \<Rightarrow> Some (id_session (heap w a), hostWs (heap w a) \<noteq> None,
                        guestWs (heap w a) \<noteq> None, createdAt (heap w a)))"

section \<open>A run of the server\<close>

text \<open>
  The scenario of the specification: a session \<open>ABC12345\<close> with secret \<open>s3cr3t\<close>
  is created, the host binds on socket 11, then the guest binds on socket 12.
\<close>

definition scenario_created :: world where
  "scenario_created =
     fst (create_session None initial_world ''abc12345-bbfd-4b2d-9b5d-ab8dfbbd4bed'' ''s3cr3t''
            1000 1000)"

definition scenario_host :: world where
  "scenario_host =
     fst (connection scenario_created 11 (Some ''ABC12345'') (Some ''host'') (Some ''s3cr3t'')
            ''unused'' ''unused'' 2000 ''2025-11-12T20:00:02.000Z'')"

definition scenario_both :: world where
  "scenario_both =
     fst (connection scenario_host 12 (Some ''ABC12345'') (Some ''guest'') None
            ''7c9e6679-7425-40de-944b-e07fc1f90ae7'' ''2025-11-12T20:00:03.000Z'' 3000
            ''2025-11-12T20:00:03.001Z'')"

definition host_conn :: conn where
  "host_conn = \<lparr>c_ws = 11, c_session = 0, c_role = ''host'', c_sessionId = ''ABC12345''\<rparr>"

definition guest_conn :: conn where
  "guest_conn = \<lparr>c_ws = 12, c_session = 0, c_role = ''guest'', c_sessionId = ''ABC12345''\<rparr>"

section \<open>Session ids\<close>

lemma uuid_char_not_upper:
  "uuid_char c \<Longrightarrow> \<not> (65 \<le> (of_char c :: nat) \<and> (of_char c :: nat) \<le> 90)"
  unfolding uuid_char_def by auto

lemma of_char_toUpperCase_char:
  "(of_char (toUpperCase_char c) :: nat) =
     (if 97 \<le> (of_char c :: nat) \<and> (of_char c :: nat) \<le> 122 then of_char c - 32 else of_char c)"
  by (auto simp: toUpperCase_char_def)

lemma toUpperCase_char_inj:
  assumes "uuid_char c" "uuid_char d" "toUpperCase_char c = toUpperCase_char d"
  shows "c = d"
proof -
  have "(of_char (toUpperCase_char c) :: nat) = of_char (toUpperCase_char d)"
    using assms(3) by simp
  moreover have "\<And>n m :: nat.
      (if 97 \<le> n \<and> n \<le> 122 then n - 32 else n) = (if 97 \<le> m \<and> m \<le> 122 then m - 32 else m)
      \<Longrightarrow> \<not> (65 \<le> n \<and> n \<le> 90) \<Longrightarrow> \<not> (65 \<le> m \<and> m \<le> 90) \<Longrightarrow> n = m"
    by (auto split: if_splits)
  ultimately have "(of_char c :: nat) = of_char d"
    using uuid_char_not_upper [OF assms(1)] uuid_char_not_upper [OF assms(2)]
    unfolding of_char_toUpperCase_char by blast
  then show ?thesis by simp
qed

lemma toUpperCase_inj:
  "list_all uuid_char s \<Longrightarrow> list_all uuid_char t \<Longrightarrow> toUpperCase s = toUpperCase t \<Longrightarrow> s = t"
proof (induction s arbitrary: t)
  case Nil
  then show ?case by (simp add: toUpperCase_def)
next
  case (Cons c s)
  then obtain d t' where t: "t = d # t'" by (cases t) (auto simp: toUpperCase_def)
  with Cons show ?case by (auto simp: toUpperCase_def dest: toUpperCase_char_inj)
qed

text \<open>One creation, written out.\<close>

lemma create_session_result:
  "create_session g w u1 u2 n1 n2 =
     (console_log
        (w\<lparr>sessions := AList.update (toUpperCase (take 8 u1)) (next_addr w) (sessions w),
           heap := (heap w)(next_addr w :=
             \<lparr>id_session = toUpperCase (take 8 u1), hostId = u2, guestId = None,
              hostWs = None, guestWs = None, createdAt = n1, lastActivity = n2\<rparr>),
           next_addr := Suc (next_addr w)\<rparr>)
        (SessionCreated (toUpperCase (take 8 u1))),
      \<lparr>r_sessionId = toUpperCase (take 8 u1), r_hostId = u2,
       r_guestUrl = (case g of None \<Rightarrow> ''http://localhost:3001''
                     | Some u \<Rightarrow> if u = [] then ''http://localhost:3001'' else u)
                    @ ''/join/'' @ toUpperCase (take 8 u1)\<rparr>)"
  by (simp add: create_session_def Let_def)

lemma create_session_id:
  "r_sessionId (snd (create_session g w u1 u2 n1 n2)) = toUpperCase (take 8 u1)"
  by (simp add: create_session_result)

lemma create_session_hostId:
  "r_hostId (snd (create_session g w u1 u2 n1 n2)) = u2"
  by (simp add: create_session_result)

lemma sessions_create_session:
  "sessions (fst (create_session g w u1 u2 n1 n2)) =
     AList.update (toUpperCase (take 8 u1)) (next_addr w) (sessions w)"
  by (simp add: create_session_result console_log_def)

lemma heap_create_session:
  "heap (fst (create_session g w u1 u2 n1 n2)) =
     (heap w)(next_addr w :=
        \<lparr>id_session = toUpperCase (take 8 u1), hostId = u2, guestId = None,
         hostWs = None, guestWs = None, createdAt = n1, lastActivity = n2\<rparr>)"
  by (simp add: create_session_result console_log_def)

lemma next_addr_create_session:
  "next_addr (fst (create_session g w u1 u2 n1 n2)) = Suc (next_addr w)"
  by (simp add: create_session_result console_log_def)

lemma create_all_Cons:
  "fst (create_all g w ((u1, u2, n1, n2) # rs)) =
     fst (create_all g (fst (create_session g w u1 u2 n1 n2)) rs)"
  "snd (create_all g w ((u1, u2, n1, n2) # rs)) =
     snd (create_session g w u1 u2 n1 n2)
       # snd (create_all g (fst (create_session g w u1 u2 n1 n2)) rs)"
  by (simp_all split: prod.splits)

lemma create_all_length: "length (snd (create_all g w rs)) = length rs"
proof (induction rs arbitrary: w)
  case Nil
  show ?case by simp
next
  case (Cons r rs)
  obtain u1 u2 n1 n2 where r: "r = (u1, u2, n1, n2)" by (cases r) auto
  show ?case unfolding r create_all_Cons using Cons.IH by simp
qed

lemma create_all_ids:
  "map r_sessionId (snd (create_all g w rs)) = map (\<lambda>r. toUpperCase (take 8 (fst r))) rs"
proof (induction rs arbitrary: w)
  case Nil
  show ?case by simp
next
  case (Cons r rs)
  obtain u1 u2 n1 n2 where r: "r = (u1, u2, n1, n2)" by (cases r) auto
  show ?case unfolding r create_all_Cons using Cons.IH by (simp add: create_session_id)
qed

lemma create_all_hostIds:
  "map r_hostId (snd (create_all g w rs)) = map (\<lambda>r. fst (snd r)) rs"
proof (induction rs arbitrary: w)
  case Nil
  show ?case by simp
next
  case (Cons r rs)
  obtain u1 u2 n1 n2 where r: "r = (u1, u2, n1, n2)" by (cases r) auto
  show ?case unfolding r create_all_Cons using Cons.IH by (simp add: create_session_hostId)
qed

lemma create_all_dom:
  "dom (map_of (sessions (fst (create_all g w rs)))) =
     dom (map_of (sessions w)) \<union> set (map (\<lambda>r. toUpperCase (take 8 (fst r))) rs)"
proof (induction rs arbitrary: w)
  case Nil
  show ?case by simp
next
  case (Cons r rs)
  obtain u1 u2 n1 n2 where r: "r = (u1, u2, n1, n2)" by (cases r) auto
  show ?case unfolding r create_all_Cons Cons.IH
    by (auto simp: sessions_create_session update_conv')
qed

lemma create_all_next_addr:
  "next_addr (fst (create_all g w rs)) = next_addr w + length rs"
proof (induction rs arbitrary: w)
  case Nil
  show ?case by simp
next
  case (Cons r rs)
  obtain u1 u2 n1 n2 where r: "r = (u1, u2, n1, n2)" by (cases r) auto
  show ?case unfolding r create_all_Cons Cons.IH by (simp add: next_addr_create_session)
qed

text \<open>Later creations leave the session objects allocated before them alone.\<close>

lemma create_all_heap_frame:
  "a < next_addr w \<Longrightarrow> heap (fst (create_all g w rs)) a = heap w a"
proof (induction rs arbitrary: w)
  case Nil
  show ?case by simp
next
  case (Cons r rs)
  obtain u1 u2 n1 n2 where r: "r = (u1, u2, n1, n2)" by (cases r) auto
  let ?w1 = "fst (create_session g w u1 u2 n1 n2)"
  have "a < next_addr ?w1" using Cons.prems by (simp add: next_addr_create_session)
  from Cons.IH [OF this] show ?case
    unfolding r create_all_Cons using Cons.prems by (simp add: heap_create_session)
qed

lemma create_all_heap_new:
  "i < length rs \<Longrightarrow>
   heap (fst (create_all g w rs)) (next_addr w + i) =
     (case rs ! i of (uuid1, uuid2, now1, now2) \<Rightarrow>
        \<lparr>id_session = toUpperCase (take 8 uuid1), hostId = uuid2, guestId = None,
         hostWs = None, guestWs = None, createdAt = now1, lastActivity = now2\<rparr>)"
proof (induction rs arbitrary: w i)
  case Nil
  then show ?case by simp
next
  case (Cons r rs)
  obtain u1 u2 n1 n2 where r: "r = (u1, u2, n1, n2)" by (cases r) auto
  let ?w1 = "fst (create_session g w u1 u2 n1 n2)"
  show ?case
  proof (cases i)
    case 0
    have "next_addr w < next_addr ?w1" by (simp add: next_addr_create_session)
    from create_all_heap_frame [OF this, of g rs] show ?thesis
      unfolding r create_all_Cons using 0 by (simp add: heap_create_session)
  next
    case (Suc i')
    then have "i' < length rs" using Cons.prems by simp
    from Cons.IH [OF this, of ?w1] show ?thesis
      unfolding r create_all_Cons using Suc by (simp add: next_addr_create_session)
  qed
qed

text \<open>An id that no creation of the run takes keeps its entry.\<close>

lemma create_all_registry_frame:
  "k \<notin> set (map (\<lambda>r. toUpperCase (take 8 (fst r))) rs) \<Longrightarrow>
   map_of (sessions (fst (create_all g w rs))) k = map_of (sessions w) k"
proof (induction rs arbitrary: w)
  case Nil
  show ?case by simp
next
  case (Cons r rs)
  obtain u1 u2 n1 n2 where r: "r = (u1, u2, n1, n2)" by (cases r) auto
  let ?w1 = "fst (create_session g w u1 u2 n1 n2)"
  have "k \<notin> set (map (\<lambda>r. toUpperCase (take 8 (fst r))) rs)" using Cons.prems by simp
  from Cons.IH [OF this, of ?w1] show ?case
    unfolding r create_all_Cons using Cons.prems r
    by (simp add: sessions_create_session update_conv')
qed

text \<open>An id is bound to the session of the last creation that took it.\<close>

lemma create_all_registry_new:
  "i < length rs \<Longrightarrow>
   \<forall>j. i < j \<and> j < length rs \<longrightarrow>
       toUpperCase (take 8 (fst (rs ! j))) \<noteq> toUpperCase (take 8 (fst (rs ! i))) \<Longrightarrow>
   map_of (sessions (fst (create_all g w rs))) (toUpperCase (take 8 (fst (rs ! i)))) =
     Some (next_addr w + i)"
proof (induction rs arbitrary: w i)
  case Nil
  then show ?case by simp
next
  case (Cons r rs)
  obtain u1 u2 n1 n2 where r: "r = (u1, u2, n1, n2)" by (cases r) auto
  let ?w1 = "fst (create_session g w u1 u2 n1 n2)"
  show ?case
  proof (cases i)
    case 0
    have "toUpperCase (take 8 u1) \<notin> set (map (\<lambda>r. toUpperCase (take 8 (fst r))) rs)"
    proof
      assume "toUpperCase (take 8 u1) \<in> set (map (\<lambda>r. toUpperCase (take 8 (fst r))) rs)"
      then obtain j where j: "j < length rs"
          "toUpperCase (take 8 (fst (rs ! j))) = toUpperCase (take 8 u1)"
        by (auto simp: in_set_conv_nth)
      with Cons.prems(2) [rule_format, of "Suc j"] 0 r show False by simp
    qed
    from create_all_registry_frame [OF this, of g ?w1] show ?thesis
      unfolding r create_all_Cons using 0
      by (simp add: sessions_create_session update_conv')
  next
    case (Suc i')
    then have a: "i' < length rs" using Cons.prems(1) by simp
    have b: "\<forall>j. i' < j \<and> j < length rs \<longrightarrow>
       toUpperCase (take 8 (fst (rs ! j))) \<noteq> toUpperCase (take 8 (fst (rs ! i')))"
    proof (intro allI impI)
      fix j assume "i' < j \<and> j < length rs"
      with Cons.prems(2) [rule_format, of "Suc j"] Suc
      show "toUpperCase (take 8 (fst (rs ! j))) \<noteq> toUpperCase (take 8 (fst (rs ! i')))"
        by simp
    qed
    from Cons.IH [OF a b, of ?w1] show ?thesis
      unfolding r create_all_Cons using Suc by (simp add: next_addr_create_session)
  qed
qed

lemma create_ids_distinct_iff:
  assumes "\<forall>r\<in>set rs. list_all uuid_char (fst r)"
  shows "distinct (map (\<lambda>r. toUpperCase (take 8 (fst r))) rs)
     \<longleftrightarrow> distinct (map (\<lambda>r. take 8 (fst r)) rs)"
proof -
  have inj: "inj_on toUpperCase (set (map (\<lambda>r. take 8 (fst r)) rs))"
  proof (rule inj_onI)
    fix s t assume "s \<in> set (map (\<lambda>r. take 8 (fst r)) rs)" "t \<in> set (map (\<lambda>r. take 8 (fst r)) rs)"
      and e: "toUpperCase s = toUpperCase t"
    then obtain r r' where "r \<in> set rs" "s = take 8 (fst r)" "r' \<in> set rs" "t = take 8 (fst r')"
      by auto
    with assms have "list_all uuid_char s" "list_all uuid_char t"
      by (auto simp: list_all_iff dest: in_set_takeD)
    then show "s = t" using e by (rule toUpperCase_inj)
  qed
  have "distinct (map toUpperCase (map (\<lambda>r. take 8 (fst r)) rs))
      \<longleftrightarrow> distinct (map (\<lambda>r. take 8 (fst r)) rs)"
    using inj by (simp add: distinct_map del: map_map)
  then show ?thesis by (simp add: comp_def)
qed

text \<open>
  Claim C4, as the code has it. The id of a new session is the upper-cased first eight
  characters of the UUID drawn for it, its secret is the second UUID, and a new session
  object (that id and secret, no guest id, both bindings unbound, the two clock readings)
  is stored under the id without the registry being consulted. So, for a run of
  creations: the ids and secrets returned are those of the UUIDs drawn; the registry
  afterwards holds the ids it held and the ids returned, every other entry as it was;
  the session objects are new ones, with the contents above, and the earlier ones are
  untouched; an id returned is bound to the session of the last creation that returned
  it, which is how a later creation with the same id replaces an earlier one; and for
  UUIDs as \<open>uuidv4()\<close> prints them the ids returned are pairwise distinct exactly
  when the UUIDs differ pairwise in their first eight characters.
\<close>

theorem create_ids_distinct:
  assumes "create_all g w rs = (w', out)"
  shows "map r_sessionId out = map (\<lambda>r. toUpperCase (take 8 (fst r))) rs
       \<and> map r_hostId out = map (\<lambda>r. fst (snd r)) rs
       \<and> dom (map_of (sessions w')) = dom (map_of (sessions w)) \<union> set (map r_sessionId out)
       \<and> (\<forall>i<length rs. heap w' (next_addr w + i) =
            (case rs ! i of (uuid1, uuid2, now1, now2) \<Rightarrow>
               \<lparr>id_session = toUpperCase (take 8 uuid1), hostId = uuid2, guestId = None,
                hostWs = None, guestWs = None, createdAt = now1, lastActivity = now2\<rparr>))
       \<and> (\<forall>i<length rs.
            (\<forall>j. i < j \<and> j < length rs \<longrightarrow> r_sessionId (out ! j) \<noteq> r_sessionId (out ! i))
            \<longrightarrow> map_of (sessions w') (r_sessionId (out ! i)) = Some (next_addr w + i))
       \<and> (\<forall>k. k \<notin> set (map r_sessionId out) \<longrightarrow> map_of (sessions w') k = map_of (sessions w) k)
       \<and> (\<forall>a<next_addr w. heap w' a = heap w a)
       \<and> ((\<forall>r\<in>set rs. list_all uuid_char (fst r)) \<longrightarrow>
            (distinct (map r_sessionId out) \<longleftrightarrow> distinct (map (\<lambda>r. take 8 (fst r)) rs)))"
proof -
  have w': "w' = fst (create_all g w rs)" and out: "out = snd (create_all g w rs)"
    using assms by simp_all
  have ids: "map r_sessionId out = map (\<lambda>r. toUpperCase (take 8 (fst r))) rs"
    unfolding out by (rule create_all_ids)
  have len: "length out = length rs"
    unfolding out by (rule create_all_length)
  have nth: "r_sessionId (out ! i) = toUpperCase (take 8 (fst (rs ! i)))" if "i < length rs" for i
  proof -
    have "map r_sessionId out ! i = map (\<lambda>r. toUpperCase (take 8 (fst r))) rs ! i"
      using ids by simp
    then show ?thesis using that len by simp
  qed
  have hosts: "map r_hostId out = map (\<lambda>r. fst (snd r)) rs"
    unfolding out by (rule create_all_hostIds)
  have dm: "dom (map_of (sessions w')) = dom (map_of (sessions w)) \<union> set (map r_sessionId out)"
    unfolding ids w' by (rule create_all_dom)
  have hp: "\<forall>i<length rs. heap w' (next_addr w + i) =
            (case rs ! i of (uuid1, uuid2, now1, now2) \<Rightarrow>
               \<lparr>id_session = toUpperCase (take 8 uuid1), hostId = uuid2, guestId = None,
                hostWs = None, guestWs = None, createdAt = now1, lastActivity = now2\<rparr>)"
    unfolding w' by (simp add: create_all_heap_new)
  have reg: "map_of (sessions w') (r_sessionId (out ! i)) = Some (next_addr w + i)"
    if i: "i < length rs"
      and l: "\<forall>j. i < j \<and> j < length rs \<longrightarrow> r_sessionId (out ! j) \<noteq> r_sessionId (out ! i)" for i
  proof -
    have "\<forall>j. i < j \<and> j < length rs \<longrightarrow>
       toUpperCase (take 8 (fst (rs ! j))) \<noteq> toUpperCase (take 8 (fst (rs ! i)))"
      using l nth i by auto
    from create_all_registry_new [OF i this, of g w] show ?thesis
      unfolding w' nth [OF i] .
  qed
  have fr: "\<forall>k. k \<notin> set (map r_sessionId out) \<longrightarrow> map_of (sessions w') k = map_of (sessions w) k"
    unfolding ids w' using create_all_registry_frame by blast
  have hf: "\<forall>a<next_addr w. heap w' a = heap w a"
    unfolding w' by (simp add: create_all_heap_frame)
  have di: "distinct (map r_sessionId out) \<longleftrightarrow> distinct (map (\<lambda>r. take 8 (fst r)) rs)"
    if "\<forall>r\<in>set rs. list_all uuid_char (fst r)"
    unfolding ids using that by (rule create_ids_distinct_iff)
  from ids hosts dm hp reg fr hf di show ?thesis by blast
qed

lemma toUpperCase_examples:
  "toUpperCase ''1b9d6bcd'' = ''1B9D6BCD''"
  "toUpperCase ''9f8b2c41'' = ''9F8B2C41''"
  "toUpperCase ''abc12345'' = ''ABC12345''"
  by code_simp+

text \<open>
  Two creations at start-up with UUIDs of different prefixes.
\<close>

theorem create_ids_distinct_witness:
  "map r_sessionId (snd (create_all None initial_world
      [(''1b9d6bcd-bbfd-4b2d-9b5d-ab8dfbbd4bed'', ''7c9e6679-7425-40de-944b-e07fc1f90ae7'', 1000, 1000),
       (''9f8b2c41-52f3-4e0a-8a6d-3d1c5b7e9f02'', ''0e37df36-f698-41e3-9b7c-2f5a1d8c4b60'', 2000, 2000)]))
     = [''1B9D6BCD'', ''9F8B2C41'']
   \<and> map_of (sessions (fst (create_all None initial_world
      [(''1b9d6bcd-bbfd-4b2d-9b5d-ab8dfbbd4bed'', ''7c9e6679-7425-40de-944b-e07fc1f90ae7'', 1000, 1000),
       (''9f8b2c41-52f3-4e0a-8a6d-3d1c5b7e9f02'', ''0e37df36-f698-41e3-9b7c-2f5a1d8c4b60'', 2000, 2000)])))
       ''1B9D6BCD'' = Some 0
   \<and> heap (fst (create_all None initial_world
      [(''1b9d6bcd-bbfd-4b2d-9b5d-ab8dfbbd4bed'', ''7c9e6679-7425-40de-944b-e07fc1f90ae7'', 1000, 1000),
       (''9f8b2c41-52f3-4e0a-8a6d-3d1c5b7e9f02'', ''0e37df36-f698-41e3-9b7c-2f5a1d8c4b60'', 2000, 2000)]))
       0 = \<lparr>id_session = ''1B9D6BCD'', hostId = ''7c9e6679-7425-40de-944b-e07fc1f90ae7'',
            guestId = None, hostWs = None, guestWs = None, createdAt = 1000, lastActivity = 1000\<rparr>
   \<and> distinct (map r_sessionId (snd (create_all None initial_world
      [(''1b9d6bcd-bbfd-4b2d-9b5d-ab8dfbbd4bed'', ''7c9e6679-7425-40de-944b-e07fc1f90ae7'', 1000, 1000),
       (''9f8b2c41-52f3-4e0a-8a6d-3d1c5b7e9f02'', ''0e37df36-f698-41e3-9b7c-2f5a1d8c4b60'', 2000, 2000)])))"
proof -
  define rs where "rs = [(''1b9d6bcd-bbfd-4b2d-9b5d-ab8dfbbd4bed'', ''7c9e6679-7425-40de-944b-e07fc1f90ae7'', 1000::int, 1000::int),
       (''9f8b2c41-52f3-4e0a-8a6d-3d1c5b7e9f02'', ''0e37df36-f698-41e3-9b7c-2f5a1d8c4b60'', 2000, 2000)]"
  define w where "w = fst (create_all None initial_world rs)"
  define out where "out = snd (create_all None initial_world rs)"
  have h: "create_all None initial_world rs = (w, out)"
    by (simp add: w_def out_def)
  have len: "length rs = 2" and r0: "rs ! 0 = (''1b9d6bcd-bbfd-4b2d-9b5d-ab8dfbbd4bed'', ''7c9e6679-7425-40de-944b-e07fc1f90ae7'', 1000, 1000)"
    and r1: "rs ! 1 = (''9f8b2c41-52f3-4e0a-8a6d-3d1c5b7e9f02'', ''0e37df36-f698-41e3-9b7c-2f5a1d8c4b60'', 2000, 2000)"
    by (simp_all add: rs_def)
  have n0: "next_addr initial_world = 0" by (simp add: initial_world_def)
  have z: "0 < length rs" using len by simp
  note T = create_ids_distinct [OF h]
  from T have "map r_sessionId out = map (\<lambda>r. toUpperCase (take 8 (fst r))) rs"
    by (rule conjunct1)
  then have ids: "map r_sessionId out = [''1B9D6BCD'', ''9F8B2C41'']"
    by (simp add: rs_def toUpperCase_examples)
  then have lo: "length out = 2"
    by (metis length_map length_Cons list.size(3) numeral_2_eq_2)
  have o0: "r_sessionId (out ! 0) = ''1B9D6BCD''"
  proof -
    have "map r_sessionId out ! 0 = ''1B9D6BCD''" unfolding ids by simp
    then show ?thesis using lo by simp
  qed
  have o1: "r_sessionId (out ! 1) = ''9F8B2C41''"
  proof -
    have "map r_sessionId out ! 1 = ''9F8B2C41''" unfolding ids by simp
    then show ?thesis using lo by simp
  qed
  from T have "\<forall>i<length rs. heap w (next_addr initial_world + i) =
            (case rs ! i of (uuid1, uuid2, now1, now2) \<Rightarrow>
               \<lparr>id_session = toUpperCase (take 8 uuid1), hostId = uuid2, guestId = None,
                hostWs = None, guestWs = None, createdAt = now1, lastActivity = now2\<rparr>)"
    by blast
  from this [rule_format, OF z]
  have hp: "heap w 0 = \<lparr>id_session = ''1B9D6BCD'', hostId = ''7c9e6679-7425-40de-944b-e07fc1f90ae7'',
            guestId = None, hostWs = None, guestWs = None, createdAt = 1000, lastActivity = 1000\<rparr>"
    unfolding r0 n0 by (simp add: toUpperCase_examples)
  from T have "\<forall>i<length rs.
            (\<forall>j. i < j \<and> j < length rs \<longrightarrow> r_sessionId (out ! j) \<noteq> r_sessionId (out ! i))
            \<longrightarrow> map_of (sessions w) (r_sessionId (out ! i)) = Some (next_addr initial_world + i)"
    by blast
  from this [rule_format, OF z]
  have "(\<forall>j. 0 < j \<and> j < length rs \<longrightarrow> r_sessionId (out ! j) \<noteq> r_sessionId (out ! 0))
            \<Longrightarrow> map_of (sessions w) (r_sessionId (out ! 0)) = Some (next_addr initial_world + 0)"
    by blast
  moreover have "\<forall>j. 0 < j \<and> j < length rs \<longrightarrow> r_sessionId (out ! j) \<noteq> r_sessionId (out ! 0)"
  proof (intro allI impI)
    fix j assume "0 < j \<and> j < length rs"
    then have "j = 1" using len by simp
    then show "r_sessionId (out ! j) \<noteq> r_sessionId (out ! 0)" using o0 o1 by simp
  qed
  ultimately have reg: "map_of (sessions w) ''1B9D6BCD'' = Some 0"
    using o0 n0 by simp
  have "distinct (map r_sessionId out)" unfolding ids by simp
  with ids hp reg show ?thesis unfolding w_def out_def rs_def by simp
qed

text \<open>
  Claim C4 as stated fails: two different UUIDs that agree on their first eight characters
  give two creations the same id, and that id is in the registry when the second
  creation takes it.
\<close>

theorem create_collision_counterexample:
  "''1b9d6bcd-bbfd-4b2d-9b5d-ab8dfbbd4bed'' \<noteq> ''1b9d6bcd-52f3-4e0a-8a6d-3d1c5b7e9f02''
   \<and> map r_sessionId (snd (create_all None initial_world
      [(''1b9d6bcd-bbfd-4b2d-9b5d-ab8dfbbd4bed'', ''7c9e6679-7425-40de-944b-e07fc1f90ae7'', 1000, 1000),
       (''1b9d6bcd-52f3-4e0a-8a6d-3d1c5b7e9f02'', ''0e37df36-f698-41e3-9b7c-2f5a1d8c4b60'', 2000, 2000)]))
     = [''1B9D6BCD'', ''1B9D6BCD'']
   \<and> map_of (sessions (fst (create_session None initial_world
        ''1b9d6bcd-bbfd-4b2d-9b5d-ab8dfbbd4bed'' ''7c9e6679-7425-40de-944b-e07fc1f90ae7'' 1000 1000)))
       (r_sessionId (snd (create_session None
          (fst (create_session None initial_world
             ''1b9d6bcd-bbfd-4b2d-9b5d-ab8dfbbd4bed'' ''7c9e6679-7425-40de-944b-e07fc1f90ae7'' 1000 1000))
          ''1b9d6bcd-52f3-4e0a-8a6d-3d1c5b7e9f02'' ''0e37df36-f698-41e3-9b7c-2f5a1d8c4b60'' 2000 2000)))
     = Some 0"
  by (simp add: create_all_ids create_session_id sessions_create_session update_conv'
      toUpperCase_examples initial_world_def del: create_all.simps)

section \<open>Effects of the primitive operations\<close>

lemma console_log_simps [simp]:
  "sessions (console_log w l) = sessions w"
  "heap (console_log w l) = heap w"
  "next_addr (console_log w l) = next_addr w"
  "sockets (console_log w l) = sockets w"
  "timeouts (console_log w l) = timeouts w"
  "console (console_log w l) = console w @ [l]"
  by (simp_all add: console_log_def)

lemma update_session_simps [simp]:
  "sessions (update_session w a f) = sessions w"
  "heap (update_session w a f) = (heap w)(a := f (heap w a))"
  "next_addr (update_session w a f) = next_addr w"
  "sockets (update_session w a f) = sockets w"
  "timeouts (update_session w a f) = timeouts w"
  "console (update_session w a f) = console w"
  by (simp_all add: update_session_def)

lemma ws_send_simps [simp]:
  "sessions (ws_send w h v) = sessions w"
  "heap (ws_send w h v) = heap w"
  "next_addr (ws_send w h v) = next_addr w"
  "timeouts (ws_send w h v) = timeouts w"
  "console (ws_send w h v) = console w"
  by (simp_all add: ws_send_def)

lemma sockets_ws_send:
  "sockets (ws_send w h v) =
     (if readyState (sockets w h) = 1
      then (sockets w)(h := (sockets w h)\<lparr>outbox := outbox (sockets w h) @ [v]\<rparr>)
      else sockets w)"
  by (simp add: ws_send_def)

lemma ws_close_simps [simp]:
  "sessions (ws_close w h cd rs) = sessions w"
  "heap (ws_close w h cd rs) = heap w"
  "next_addr (ws_close w h cd rs) = next_addr w"
  "timeouts (ws_close w h cd rs) = timeouts w"
  "console (ws_close w h cd rs) = console w"
  "sockets (ws_close w h cd rs) =
     (sockets w)(h := (sockets w h)
         \<lparr>readyState := (if readyState (sockets w h) = 3 then 3 else 2),
          closes := closes (sockets w h) @ [(cd, rs)]\<rparr>)"
  by (simp_all add: ws_close_def)

text \<open>What \<open>JSON.stringify\<close> does to the messages the server writes itself, and to
  values without exceptional numbers.\<close>

lemma JSON_stringify_control [simp]:
  "JSON_stringify (connected_msg r sid ts) = connected_msg r sid ts"
  "JSON_stringify (guest_joined g ts) = guest_joined g ts"
  "JSON_stringify (left_msg ty ts) = left_msg ty ts"
  by (simp_all add: connected_msg_def guest_joined_def left_msg_def json_of_id_def
      split: option.splits)

lemma JSON_stringify_plain: "plain v \<Longrightarrow> JSON_stringify v = v"
proof (induction v)
  case (JArray xs)
  then have "map JSON_stringify xs = xs"
    by (intro map_idI) (simp add: list_all_iff)
  then show ?case by simp
next
  case (JObject kvs)
  have "map (\<lambda>(k, v). (k, JSON_stringify v)) kvs = kvs"
  proof (rule map_idI)
    fix e assume e: "e \<in> set kvs"
    obtain k v where kv: "e = (k, v)" by (cases e)
    have "plain v" using JObject.prems e kv by (auto simp: list_all_iff)
    moreover have "v \<in> Basic_BNFs.snds e" using kv by simp
    ultimately have "JSON_stringify v = v" using JObject.IH e by blast
    then show "(case e of (k, v) \<Rightarrow> (k, JSON_stringify v)) = e" using kv by simp
  qed
  then show ?case by simp
qed simp_all

lemma number_examples:
  "non_finite 0x7FF0000000000000"
  "\<not> non_finite 0x3FF8000000000000"
  "(0x3FF8000000000000 :: 64 word) \<noteq> negative_zero"
  "\<not> non_finite 0"
  "(0 :: 64 word) \<noteq> negative_zero"
  "\<not> non_finite 0x8000000000000000"
  "negative_zero = (0x8000000000000000 :: 64 word)"
  by (simp_all add: non_finite_def negative_zero_def)

section \<open>The scenario, evaluated\<close>

text \<open>
The states of the scenario, component by component.
\<close>

lemma scenario_created_simps:
  "sessions scenario_created = [(''ABC12345'', 0)]"
  "heap scenario_created 0 = \<lparr>id_session = ''ABC12345'', hostId = ''s3cr3t'', guestId = None,
      hostWs = None, guestWs = None, createdAt = 1000, lastActivity = 1000\<rparr>"
  "sockets scenario_created h = \<lparr>readyState = 1, outbox = [], closes = []\<rparr>"
  "timeouts scenario_created = []"
  by (simp_all add: scenario_created_def create_session_def initial_world_def Let_def
        toUpperCase_examples)

lemma scenario_host_simps:
  "sessions scenario_host = [(''ABC12345'', 0)]"
  "heap scenario_host 0 = \<lparr>id_session = ''ABC12345'', hostId = ''s3cr3t'', guestId = None,
      hostWs = Some 11, guestWs = None, createdAt = 1000, lastActivity = 2000\<rparr>"
  "sockets scenario_host 12 = \<lparr>readyState = 1, outbox = [], closes = []\<rparr>"
  "sockets scenario_host 11 = \<lparr>readyState = 1, outbox =
       [connected_msg ''host'' ''ABC12345'' ''2025-11-12T20:00:02.000Z''], closes = []\<rparr>"
  "timeouts scenario_host = []"
  by (simp_all add: scenario_host_def connection_def confirm_connection_def falsy_def Let_def
        scenario_created_simps sockets_ws_send)

lemma scenario_both_simps:
  "sessions scenario_both = [(''ABC12345'', 0)]"
  "heap scenario_both 0 = \<lparr>id_session = ''ABC12345'', hostId = ''s3cr3t'',
      guestId = Some ''7c9e6679-7425-40de-944b-e07fc1f90ae7'',
      hostWs = Some 11, guestWs = Some 12, createdAt = 1000, lastActivity = 3000\<rparr>"
  "sockets scenario_both 12 = \<lparr>readyState = 1, outbox =
       [connected_msg ''guest'' ''ABC12345'' ''2025-11-12T20:00:03.001Z''], closes = []\<rparr>"
  "sockets scenario_both 11 = \<lparr>readyState = 1, outbox =
       [connected_msg ''host'' ''ABC12345'' ''2025-11-12T20:00:02.000Z'',
        guest_joined (Some ''7c9e6679-7425-40de-944b-e07fc1f90ae7'') ''2025-11-12T20:00:03.000Z''],
       closes = []\<rparr>"
  "timeouts scenario_both = []"
  by (simp_all add: scenario_both_def connection_def confirm_connection_def attach_guest_def
        falsy_def Let_def scenario_host_simps sockets_ws_send)

section \<open>Forwarding\<close>

lemma stringify_forwarded:
  "JSON_stringify (forwarded m r ts) =
     JObject (map (\<lambda>(k, v). (k, JSON_stringify v))
       (AList.update ''timestamp'' (JString ts) (AList.update ''sender'' (JString r) (spread m))))"
  by (simp add: forwarded_def)

lemma map_of_stringified:
  "map_of (map (\<lambda>(k, v). (k, JSON_stringify v)) kvs) = map_option JSON_stringify \<circ> map_of kvs"
  by (induction kvs) (auto simp: fun_eq_iff)

lemma delivered_fields:
  "map_of (map (\<lambda>(k, v). (k, JSON_stringify v))
       (AList.update ''timestamp'' (JString ts) (AList.update ''sender'' (JString r) kvs))) =
     (map_option JSON_stringify \<circ> map_of kvs)
       (''sender'' \<mapsto> JString r, ''timestamp'' \<mapsto> JString ts)"
  by (auto simp: map_of_stringified update_conv' fun_eq_iff)

text \<open>The message handler by cases.\<close>

lemma on_message_result:
  "on_message w c (Some m) now ts =
     (let w1 = update_session w (c_session c) (\<lambda>s. s\<lparr>lastActivity := now\<rparr>);
          w2 = console_log w1 (MessageFrom (c_role c) (type_of m));
          target = (if c_role c = ''host'' then guestWs (heap w (c_session c))
                    else hostWs (heap w (c_session c)))
      in if m = JNull \<or> type_raises m then (console_log w1 (ErrorParsing TypeError), None)
         else case target of
                None \<Rightarrow>
                  (console_log w2 (TargetNotConnected (id_session (heap w (c_session c)))), None)
              | Some t \<Rightarrow>
                  if readyState (sockets w t) \<noteq> 1
                  then (console_log w2 (TargetNotConnected (id_session (heap w (c_session c)))),
                        None)
                  else (ws_send w2 t (JSON_stringify (forwarded m (c_role c) ts)), None))"
  by (simp add: on_message_def handleMessage_def Let_def split: option.splits)

lemma alist_from_keys:
  "distinct (map fst fs) \<Longrightarrow> fs = map (\<lambda>k. (k, the (map_of fs k))) (map fst fs)"
proof (induction fs)
  case Nil
  show ?case by simp
next
  case (Cons e fs)
  obtain k v where e: "e = (k, v)" by (cases e)
  have nk: "k \<notin> fst ` set fs" and d: "distinct (map fst fs)"
    using Cons.prems e by simp_all
  have "map (\<lambda>k'. (k', the (map_of (e # fs) k'))) (map fst fs) =
        map (\<lambda>k'. (k', the (map_of fs k'))) (map fst fs)"
  proof (rule map_cong [OF refl])
    fix k' assume "k' \<in> set (map fst fs)"
    then have "k' \<noteq> k" using nk by auto
    then show "(k', the (map_of (e # fs) k')) = (k', the (map_of fs k'))"
      by (simp add: e)
  qed
  also have "\<dots> = fs" using Cons.IH [OF d] by simp
  finally have r: "map (\<lambda>k'. (k', the (map_of (e # fs) k'))) (map fst fs) = fs" .
  have "map (\<lambda>k'. (k', the (map_of (e # fs) k'))) (map fst (e # fs)) =
        (k, the (map_of (e # fs) k)) # map (\<lambda>k'. (k', the (map_of (e # fs) k'))) (map fst fs)"
    by (simp add: e)
  also have "\<dots> = e # fs" unfolding r by (simp add: e)
  finally show ?case by simp
qed

lemma spread_cases:
  "(\<forall>kvs. m = JObject kvs \<longrightarrow> spread m = kvs)
   \<and> (\<forall>xs. m = JArray xs \<longrightarrow> map snd (spread m) = xs)
   \<and> (\<forall>s. m = JString s \<longrightarrow> map snd (spread m) = map (\<lambda>c. JString [c]) s)
   \<and> (\<forall>n. m = JNumber n \<longrightarrow> spread m = [])
   \<and> (\<forall>b. m = JBool b \<longrightarrow> spread m = [])"
  by (cases m) simp_all

text \<open>
  Claim C1, as the code has it. A message arrives from the connection bound as host or as
  guest while the other role's socket is bound and OPEN; it parsed to a value other than
  \<open>null\<close>, and its \<open>type\<close> can be converted to a string for the console line.
  Then the handler raises nothing, the only socket whose traffic changes is that other
  socket, and what it receives, once, is the text of an object with the message's own
  properties in their order (for an object, its fields) and with \<open>sender\<close> (the
  sending role) and \<open>timestamp\<close> (the clock reading) set in place or appended. Every
  other field arrives as \<open>JSON.stringify\<close> writes its value: unchanged unless it
  contains a number that is not finite or a negative zero.
\<close>

theorem message_forwarded:
  assumes "c_role c = ''host'' \<and> guestWs (heap w (c_session c)) = Some t
         \<or> c_role c = ''guest'' \<and> hostWs (heap w (c_session c)) = Some t"
    and "readyState (sockets w t) = 1"
    and "m \<noteq> JNull"
    and "\<not> type_raises m"
  shows "snd (on_message w c (Some m) now ts) = None
       \<and> (\<exists>fs. sockets (fst (on_message w c (Some m) now ts)) =
                 (sockets w)(t := (sockets w t)\<lparr>outbox := outbox (sockets w t) @ [JObject fs]\<rparr>)
             \<and> map fst fs = map fst (spread m)
                  @ (if ''sender'' \<in> set (map fst (spread m)) then [] else [''sender''])
                  @ (if ''timestamp'' \<in> set (map fst (spread m)) then [] else [''timestamp''])
             \<and> map_of fs = (map_option JSON_stringify \<circ> map_of (spread m))
                               (''sender'' \<mapsto> JString (c_role c), ''timestamp'' \<mapsto> JString ts)
             \<and> (\<forall>k v. map_of (spread m) k = Some v \<and> k \<noteq> ''sender'' \<and> k \<noteq> ''timestamp''
                    \<longrightarrow> map_of fs k = Some (JSON_stringify v))
             \<and> (\<forall>k v. map_of (spread m) k = Some v \<and> k \<noteq> ''sender'' \<and> k \<noteq> ''timestamp''
                      \<and> plain v
                    \<longrightarrow> map_of fs k = Some v))
       \<and> (\<forall>kvs. m = JObject kvs \<longrightarrow> spread m = kvs)
       \<and> (\<forall>xs. m = JArray xs \<longrightarrow> map snd (spread m) = xs)
       \<and> (\<forall>s. m = JString s \<longrightarrow> map snd (spread m) = map (\<lambda>c. JString [c]) s)
       \<and> (\<forall>n. m = JNumber n \<longrightarrow> spread m = [])
       \<and> (\<forall>b. m = JBool b \<longrightarrow> spread m = [])"
proof -
  define fs where "fs = map (\<lambda>(k, v). (k, JSON_stringify v))
       (AList.update ''timestamp'' (JString ts)
          (AList.update ''sender'' (JString (c_role c)) (spread m)))"
  have tgt: "(if c_role c = ''host'' then guestWs (heap w (c_session c))
              else hostWs (heap w (c_session c))) = Some t"
    using assms(1) by auto
  have "on_message w c (Some m) now ts =
      (ws_send (console_log (update_session w (c_session c) (\<lambda>s. s\<lparr>lastActivity := now\<rparr>))
                 (MessageFrom (c_role c) (type_of m)))
         t (JSON_stringify (forwarded m (c_role c) ts)), None)"
    unfolding on_message_result using tgt assms(2) assms(3) assms(4) by (simp add: Let_def)
  moreover have "JSON_stringify (forwarded m (c_role c) ts) = JObject fs"
    unfolding stringify_forwarded fs_def by simp
  ultimately have a: "snd (on_message w c (Some m) now ts) = None"
    and b: "sockets (fst (on_message w c (Some m) now ts)) =
           (sockets w)(t := (sockets w t)\<lparr>outbox := outbox (sockets w t) @ [JObject fs]\<rparr>)"
    using assms(2) by (simp_all add: sockets_ws_send)
  have keys: "map fst fs = map fst (spread m)
                  @ (if ''sender'' \<in> set (map fst (spread m)) then [] else [''sender''])
                  @ (if ''timestamp'' \<in> set (map fst (spread m)) then [] else [''timestamp''])"
    unfolding fs_def by (simp add: update_keys comp_def case_prod_unfold)
  have mp: "map_of fs = (map_option JSON_stringify \<circ> map_of (spread m))
                               (''sender'' \<mapsto> JString (c_role c), ''timestamp'' \<mapsto> JString ts)"
    unfolding fs_def by (rule delivered_fields)
  have p1: "\<forall>k v. map_of (spread m) k = Some v \<and> k \<noteq> ''sender'' \<and> k \<noteq> ''timestamp''
                    \<longrightarrow> map_of fs k = Some (JSON_stringify v)"
    unfolding mp by simp
  have p2: "\<forall>k v. map_of (spread m) k = Some v \<and> k \<noteq> ''sender'' \<and> k \<noteq> ''timestamp'' \<and> plain v
                    \<longrightarrow> map_of fs k = Some v"
    unfolding mp by (simp add: JSON_stringify_plain)
  have "\<exists>fs. sockets (fst (on_message w c (Some m) now ts)) =
                 (sockets w)(t := (sockets w t)\<lparr>outbox := outbox (sockets w t) @ [JObject fs]\<rparr>)
             \<and> map fst fs = map fst (spread m)
                  @ (if ''sender'' \<in> set (map fst (spread m)) then [] else [''sender''])
                  @ (if ''timestamp'' \<in> set (map fst (spread m)) then [] else [''timestamp''])
             \<and> map_of fs = (map_option JSON_stringify \<circ> map_of (spread m))
                               (''sender'' \<mapsto> JString (c_role c), ''timestamp'' \<mapsto> JString ts)
             \<and> (\<forall>k v. map_of (spread m) k = Some v \<and> k \<noteq> ''sender'' \<and> k \<noteq> ''timestamp''
                    \<longrightarrow> map_of fs k = Some (JSON_stringify v))
             \<and> (\<forall>k v. map_of (spread m) k = Some v \<and> k \<noteq> ''sender'' \<and> k \<noteq> ''timestamp''
                      \<and> plain v
                    \<longrightarrow> map_of fs k = Some v)"
    using b keys mp p1 p2 by blast
  with a spread_cases [of m] show ?thesis by blast
qed

text \<open>The scenario's sockets with their contents written out.\<close>

lemma scenario_both_outboxes:
  "outbox (sockets scenario_both 11) =
     [JObject [(''type'', JString ''connected''), (''role'', JString ''host''),
               (''sessionId'', JString ''ABC12345''),
               (''timestamp'', JString ''2025-11-12T20:00:02.000Z'')],
      JObject [(''type'', JString ''guest_joined''),
               (''guestId'', JString ''7c9e6679-7425-40de-944b-e07fc1f90ae7''),
               (''timestamp'', JString ''2025-11-12T20:00:03.000Z'')]]"
  "outbox (sockets scenario_both 12) =
     [JObject [(''type'', JString ''connected''), (''role'', JString ''guest''),
               (''sessionId'', JString ''ABC12345''),
               (''timestamp'', JString ''2025-11-12T20:00:03.001Z'')]]"
  by (simp_all add: scenario_both_simps connected_msg_def guest_joined_def json_of_id_def)

text \<open>
  In the scenario the host sends a message with a text, the number 1.5 and an array; the
  guest receives all of it with the two fields appended.
\<close>

theorem message_forwarded_witness:
  "guestWs (heap scenario_both (c_session host_conn)) = Some 12
   \<and> readyState (sockets scenario_both 12) = 1
   \<and> \<not> type_raises (JObject [(''type'', JString ''message''), (''text'', JString ''hi''),
                               (''n'', JNumber 0x3FF8000000000000),
                               (''tags'', JArray [JBool True, JNull])])
   \<and> outbox (sockets (fst (on_message scenario_both host_conn
        (Some (JObject [(''type'', JString ''message''), (''text'', JString ''hi''),
                        (''n'', JNumber 0x3FF8000000000000),
                        (''tags'', JArray [JBool True, JNull])]))
        4000 ''2025-11-12T20:00:04.000Z'')) 12) =
     [JObject [(''type'', JString ''connected''), (''role'', JString ''guest''),
               (''sessionId'', JString ''ABC12345''),
               (''timestamp'', JString ''2025-11-12T20:00:03.001Z'')],
      JObject [(''type'', JString ''message''), (''text'', JString ''hi''),
               (''n'', JNumber 0x3FF8000000000000),
               (''tags'', JArray [JBool True, JNull]),
               (''sender'', JString ''host''),
               (''timestamp'', JString ''2025-11-12T20:00:04.000Z'')]]"
proof -
  define m where "m = JObject [(''type'', JString ''message''), (''text'', JString ''hi''),
                        (''n'', JNumber 0x3FF8000000000000),
                        (''tags'', JArray [JBool True, JNull])]"
  have h1: "c_role host_conn = ''host'' \<and> guestWs (heap scenario_both (c_session host_conn)) = Some 12
         \<or> c_role host_conn = ''guest'' \<and> hostWs (heap scenario_both (c_session host_conn)) = Some 12"
    by (simp add: host_conn_def scenario_both_simps)
  have h2: "readyState (sockets scenario_both 12) = 1"
    by (simp add: scenario_both_simps)
  have h3: "m \<noteq> JNull" by (simp add: m_def)
  have h4: "\<not> type_raises m" by (simp add: m_def type_raises_def)
  from message_forwarded [OF h1 h2 h3 h4, of 4000 "''2025-11-12T20:00:04.000Z''"]
  obtain fs where fs: "sockets (fst (on_message scenario_both host_conn (Some m) 4000
          ''2025-11-12T20:00:04.000Z'')) =
        (sockets scenario_both)(12 := (sockets scenario_both 12)
           \<lparr>outbox := outbox (sockets scenario_both 12) @ [JObject fs]\<rparr>)"
    and keys: "map fst fs = map fst (spread m)
                  @ (if ''sender'' \<in> set (map fst (spread m)) then [] else [''sender''])
                  @ (if ''timestamp'' \<in> set (map fst (spread m)) then [] else [''timestamp''])"
    and mp: "map_of fs = (map_option JSON_stringify \<circ> map_of (spread m))
                (''sender'' \<mapsto> JString (c_role host_conn),
                 ''timestamp'' \<mapsto> JString ''2025-11-12T20:00:04.000Z'')"
    by blast
  have k: "map fst fs = [''type'', ''text'', ''n'', ''tags'', ''sender'', ''timestamp'']"
    using keys by (simp add: m_def)
  have v: "map_of fs ''type'' = Some (JString ''message'')"
    "map_of fs ''text'' = Some (JString ''hi'')"
    "map_of fs ''n'' = Some (JNumber 0x3FF8000000000000)"
    "map_of fs ''tags'' = Some (JArray [JBool True, JNull])"
    "map_of fs ''sender'' = Some (JString ''host'')"
    "map_of fs ''timestamp'' = Some (JString ''2025-11-12T20:00:04.000Z'')"
    unfolding mp by (simp_all add: m_def host_conn_def number_examples)
  have "fs = map (\<lambda>k. (k, the (map_of fs k))) (map fst fs)"
    by (rule alist_from_keys) (simp add: k)
  then have "fs = [(''type'', JString ''message''), (''text'', JString ''hi''),
               (''n'', JNumber 0x3FF8000000000000),
               (''tags'', JArray [JBool True, JNull]),
               (''sender'', JString ''host''),
               (''timestamp'', JString ''2025-11-12T20:00:04.000Z'')]"
    unfolding k using v by simp
  with fs h1 h2 h4 show ?thesis
    unfolding m_def by (simp add: scenario_both_outboxes host_conn_def)
qed


text \<open>
  Claim C1 as stated fails. With the guest bound and OPEN, a message whose \<open>type\<close>
  is \<open>{"toString": 0}\<close> and the message \<open>null\<close> are not delivered, and fields
  holding \<open>1e999\<close> and \<open>-0\<close> are delivered as \<open>null\<close> and \<open>0\<close>.
\<close>

theorem message_forwarded_counterexample:
  "guestWs (heap scenario_both (c_session host_conn)) = Some 12
   \<and> readyState (sockets scenario_both 12) = 1
   \<and> outbox (sockets (fst (on_message scenario_both host_conn
        (Some (JObject [(''type'', JObject [(''toString'', JNumber 0)]), (''text'', JString ''hi'')]))
        4000 ''2025-11-12T20:00:04.000Z'')) 12) =
     [JObject [(''type'', JString ''connected''), (''role'', JString ''guest''),
               (''sessionId'', JString ''ABC12345''),
               (''timestamp'', JString ''2025-11-12T20:00:03.001Z'')]]
   \<and> outbox (sockets (fst (on_message scenario_both host_conn (Some JNull)
        4000 ''2025-11-12T20:00:04.000Z'')) 12) =
     [JObject [(''type'', JString ''connected''), (''role'', JString ''guest''),
               (''sessionId'', JString ''ABC12345''),
               (''timestamp'', JString ''2025-11-12T20:00:03.001Z'')]]
   \<and> outbox (sockets (fst (on_message scenario_both host_conn
        (Some (JObject [(''type'', JString ''message''), (''x'', JNumber 0x7FF0000000000000),
                        (''z'', JNumber 0x8000000000000000)]))
        4000 ''2025-11-12T20:00:04.000Z'')) 12) =
     [JObject [(''type'', JString ''connected''), (''role'', JString ''guest''),
               (''sessionId'', JString ''ABC12345''),
               (''timestamp'', JString ''2025-11-12T20:00:03.001Z'')],
      JObject [(''type'', JString ''message''), (''x'', JNull), (''z'', JNumber 0),
               (''sender'', JString ''host''),
               (''timestamp'', JString ''2025-11-12T20:00:04.000Z'')]]"
  by (simp add: on_message_result Let_def type_raises_def host_conn_def scenario_both_simps
      connected_msg_def sockets_ws_send forwarded_def number_examples)

text \<open>
  Claim C7. When the target of a message (the guest's socket for the host, the host's
  socket for anyone else) is unbound or not OPEN, handling any parsed message leaves
  every socket as it was, so nothing goes to the peer and nothing comes back to the
  sender; the registry and the pending timers are untouched, no exception leaves the
  handler, and the only change to the session is \<open>lastActivity\<close>.
\<close>

theorem message_dropped:
  assumes "(if c_role c = ''host'' then guestWs (heap w (c_session c))
            else hostWs (heap w (c_session c))) = None
         \<or> (\<exists>t. (if c_role c = ''host'' then guestWs (heap w (c_session c))
                  else hostWs (heap w (c_session c))) = Some t
                \<and> readyState (sockets w t) \<noteq> 1)"
  shows "snd (on_message w c (Some m) now ts) = None
       \<and> sockets (fst (on_message w c (Some m) now ts)) = sockets w
       \<and> heap (fst (on_message w c (Some m) now ts)) =
           (heap w)(c_session c := (heap w (c_session c))\<lparr>lastActivity := now\<rparr>)
       \<and> sessions (fst (on_message w c (Some m) now ts)) = sessions w
       \<and> timeouts (fst (on_message w c (Some m) now ts)) = timeouts w"
  using assms unfolding on_message_result
  by (auto simp: Let_def split: option.splits)

theorem message_dropped_witness:
  "guestWs (heap scenario_host (c_session host_conn)) = None
   \<and> sockets (fst (on_message scenario_host host_conn
        (Some (JObject [(''type'', JString ''message''), (''text'', JString ''hi'')]))
        4000 ''2025-11-12T20:00:04.000Z'')) = sockets scenario_host
   \<and> lastActivity (heap (fst (on_message scenario_host host_conn
        (Some (JObject [(''type'', JString ''message''), (''text'', JString ''hi'')]))
        4000 ''2025-11-12T20:00:04.000Z'')) 0) = 4000"
proof -
  have h: "(if c_role host_conn = ''host'' then guestWs (heap scenario_host (c_session host_conn))
            else hostWs (heap scenario_host (c_session host_conn))) = None
         \<or> (\<exists>t. (if c_role host_conn = ''host'' then guestWs (heap scenario_host (c_session host_conn))
                  else hostWs (heap scenario_host (c_session host_conn))) = Some t
                \<and> readyState (sockets scenario_host t) \<noteq> 1)"
    by (simp add: host_conn_def scenario_host_simps)
  from message_dropped [OF h, of "JObject [(''type'', JString ''message''), (''text'', JString ''hi'')]"
      4000 "''2025-11-12T20:00:04.000Z''"]
  show ?thesis
    by (simp add: host_conn_def scenario_host_simps)
qed

text \<open>
  Claim C8. A payload on which \<open>JSON.parse\<close> raises is answered by one line on the
  console and nothing else: sockets, sessions, registry and timers are unchanged (so
  nothing is forwarded and nothing is closed), and no exception leaves the handler.
  The latter holds for every payload, parsed or not.
\<close>

theorem malformed_discarded:
  "snd (on_message w c None now ts) = None
   \<and> sockets (fst (on_message w c None now ts)) = sockets w
   \<and> heap (fst (on_message w c None now ts)) = heap w
   \<and> sessions (fst (on_message w c None now ts)) = sessions w
   \<and> timeouts (fst (on_message w c None now ts)) = timeouts w
   \<and> console (fst (on_message w c None now ts)) = console w @ [ErrorParsing SyntaxError]
   \<and> (\<forall>p. snd (on_message w c p now ts) = None)"
  by (auto simp: on_message_def split: option.splits prod.splits)

section \<open>The sender stamp\<close>





section \<open>Other roles\<close>

lemma connection_other_role:
  assumes "map_of (sessions w) sid = Some a" "sid \<noteq> []" "role \<noteq> []"
    "role \<noteq> ''host''" "role \<noteq> ''guest''"
  shows "connection w ws (Some sid) (Some role) clientId uuid tj now tc =
     (ws_send (update_session (console_log w (WsConnection (Some role) (Some sid))) a
                 (\<lambda>s. s\<lparr>lastActivity := now\<rparr>)) ws (connected_msg role sid tc),
      Some \<lparr>c_ws = ws, c_session = a, c_role = role, c_sessionId = sid\<rparr>)"
  using assms by (simp add: connection_def confirm_connection_def falsy_def Let_def)

text \<open>
  Claim C10, as the code has it. A connection attempt on an OPEN socket names a registered
  session and carries a role that is present (not the empty string) and is neither
  \<open>host\<close> nor \<open>guest\<close>. It is not turned away: the handlers are registered with
  that role, the socket receives the \<open>connected\<close> acknowledgment with the role, the
  session id and a timestamp, the registry is unchanged and the session changes in
  \<open>lastActivity\<close> only. Every later message of that connection that the handler does
  not raise on is routed as a guest's would be: to the host's socket when that is bound
  and OPEN, stamped with the role, and nowhere otherwise.
\<close>

theorem other_role_accepted:
  assumes "map_of (sessions w) sid = Some a" "sid \<noteq> []" "role \<noteq> []"
    "role \<noteq> ''host''" "role \<noteq> ''guest''" "readyState (sockets w ws) = 1"
  shows "snd (connection w ws (Some sid) (Some role) clientId uuid tj now tc) =
           Some \<lparr>c_ws = ws, c_session = a, c_role = role, c_sessionId = sid\<rparr>
       \<and> sockets (fst (connection w ws (Some sid) (Some role) clientId uuid tj now tc)) =
           (sockets w)(ws := (sockets w ws)
              \<lparr>outbox := outbox (sockets w ws) @
                 [JObject [(''type'', JString ''connected''), (''role'', JString role),
                           (''sessionId'', JString sid), (''timestamp'', JString tc)]]\<rparr>)
       \<and> heap (fst (connection w ws (Some sid) (Some role) clientId uuid tj now tc)) =
           (heap w)(a := (heap w a)\<lparr>lastActivity := now\<rparr>)
       \<and> sessions (fst (connection w ws (Some sid) (Some role) clientId uuid tj now tc)) =
           sessions w
       \<and> (\<forall>v m n t. m \<noteq> JNull \<and> \<not> type_raises m \<longrightarrow>
            sockets (fst (on_message v
                \<lparr>c_ws = ws, c_session = a, c_role = role, c_sessionId = sid\<rparr> (Some m) n t)) =
              (case hostWs (heap v a) of
                 None \<Rightarrow> sockets v
               | Some h \<Rightarrow>
                   if readyState (sockets v h) = 1
                   then (sockets v)(h := (sockets v h)
                          \<lparr>outbox := outbox (sockets v h) @
                             [JObject (map (\<lambda>(k, x). (k, JSON_stringify x))
                                (AList.update ''timestamp'' (JString t)
                                   (AList.update ''sender'' (JString role) (spread m))))]\<rparr>)
                   else sockets v))"
proof -
  have "\<forall>v m n t. m \<noteq> JNull \<and> \<not> type_raises m \<longrightarrow>
            sockets (fst (on_message v
                \<lparr>c_ws = ws, c_session = a, c_role = role, c_sessionId = sid\<rparr> (Some m) n t)) =
              (case hostWs (heap v a) of
                 None \<Rightarrow> sockets v
               | Some h \<Rightarrow>
                   if readyState (sockets v h) = 1
                   then (sockets v)(h := (sockets v h)
                          \<lparr>outbox := outbox (sockets v h) @
                             [JObject (map (\<lambda>(k, x). (k, JSON_stringify x))
                                (AList.update ''timestamp'' (JString t)
                                   (AList.update ''sender'' (JString role) (spread m))))]\<rparr>)
                   else sockets v)"
    unfolding on_message_result stringify_forwarded using assms(4)
    by (auto simp: Let_def sockets_ws_send split: option.splits)
  then show ?thesis
    unfolding connection_other_role [OF assms(1-5)] using assms(6)
    by (simp add: sockets_ws_send connected_msg_def)
qed

theorem other_role_accepted_witness:
  "map_of (sessions scenario_both) ''ABC12345'' = Some 0
   \<and> readyState (sockets scenario_both 13) = 1
   \<and> snd (connection scenario_both 13 (Some ''ABC12345'') (Some ''observer'') None
        ''unused'' ''unused'' 5000 ''2025-11-12T20:00:05.000Z'') =
       Some \<lparr>c_ws = 13, c_session = 0, c_role = ''observer'', c_sessionId = ''ABC12345''\<rparr>
   \<and> outbox (sockets (fst (connection scenario_both 13 (Some ''ABC12345'') (Some ''observer'') None
        ''unused'' ''unused'' 5000 ''2025-11-12T20:00:05.000Z'')) 13) =
       [JObject [(''type'', JString ''connected''), (''role'', JString ''observer''),
                 (''sessionId'', JString ''ABC12345''),
                 (''timestamp'', JString ''2025-11-12T20:00:05.000Z'')]]
   \<and> heap (fst (connection scenario_both 13 (Some ''ABC12345'') (Some ''observer'') None
        ''unused'' ''unused'' 5000 ''2025-11-12T20:00:05.000Z'')) 0 =
       \<lparr>id_session = ''ABC12345'', hostId = ''s3cr3t'',
        guestId = Some ''7c9e6679-7425-40de-944b-e07fc1f90ae7'',
        hostWs = Some 11, guestWs = Some 12, createdAt = 1000, lastActivity = 5000\<rparr>
   \<and> outbox (sockets (fst (on_message scenario_both
          \<lparr>c_ws = 13, c_session = 0, c_role = ''observer'', c_sessionId = ''ABC12345''\<rparr>
          (Some (JObject [(''type'', JString ''message'')])) 6000 ''2025-11-12T20:00:06.000Z'')) 11) =
       [JObject [(''type'', JString ''connected''), (''role'', JString ''host''),
                 (''sessionId'', JString ''ABC12345''),
                 (''timestamp'', JString ''2025-11-12T20:00:02.000Z'')],
        JObject [(''type'', JString ''guest_joined''),
                 (''guestId'', JString ''7c9e6679-7425-40de-944b-e07fc1f90ae7''),
                 (''timestamp'', JString ''2025-11-12T20:00:03.000Z'')],
        JObject [(''type'', JString ''message''), (''sender'', JString ''observer''),
                 (''timestamp'', JString ''2025-11-12T20:00:06.000Z'')]]"
proof -
  have h1: "map_of (sessions scenario_both) ''ABC12345'' = Some 0"
    by (simp add: scenario_both_simps)
  have h6: "readyState (sockets scenario_both 13) = 1"
    and o13: "outbox (sockets scenario_both 13) = []"
    by (simp_all add: scenario_both_def connection_def confirm_connection_def attach_guest_def
        falsy_def Let_def scenario_host_def scenario_created_simps sockets_ws_send)
  have h2: "''ABC12345'' \<noteq> []" and h3: "''observer'' \<noteq> []"
    and h4: "''observer'' \<noteq> ''host''" and h5: "''observer'' \<noteq> ''guest''"
    by simp_all
  have m: "JObject [(''type'', JString ''message'')] \<noteq> JNull
      \<and> \<not> type_raises (JObject [(''type'', JString ''message'')])"
    by (simp add: type_raises_def)
  note T = other_role_accepted [OF h1 h2 h3 h4 h5 h6, of None "''unused''" "''unused''" 5000
      "''2025-11-12T20:00:05.000Z''"]
  from T have a: "snd (connection scenario_both 13 (Some ''ABC12345'') (Some ''observer'') None
        ''unused'' ''unused'' 5000 ''2025-11-12T20:00:05.000Z'') =
       Some \<lparr>c_ws = 13, c_session = 0, c_role = ''observer'', c_sessionId = ''ABC12345''\<rparr>"
    by blast
  from T have "sockets (fst (connection scenario_both 13 (Some ''ABC12345'') (Some ''observer'') None
        ''unused'' ''unused'' 5000 ''2025-11-12T20:00:05.000Z'')) =
           (sockets scenario_both)(13 := (sockets scenario_both 13)
              \<lparr>outbox := outbox (sockets scenario_both 13) @
                 [JObject [(''type'', JString ''connected''), (''role'', JString ''observer''),
                           (''sessionId'', JString ''ABC12345''),
                           (''timestamp'', JString ''2025-11-12T20:00:05.000Z'')]]\<rparr>)"
    by blast
  then have b: "outbox (sockets (fst (connection scenario_both 13 (Some ''ABC12345'')
        (Some ''observer'') None ''unused'' ''unused'' 5000 ''2025-11-12T20:00:05.000Z'')) 13) =
       [JObject [(''type'', JString ''connected''), (''role'', JString ''observer''),
                 (''sessionId'', JString ''ABC12345''),
                 (''timestamp'', JString ''2025-11-12T20:00:05.000Z'')]]"
    using o13 by simp
  from T have "heap (fst (connection scenario_both 13 (Some ''ABC12345'') (Some ''observer'') None
        ''unused'' ''unused'' 5000 ''2025-11-12T20:00:05.000Z'')) =
           (heap scenario_both)(0 := (heap scenario_both 0)\<lparr>lastActivity := 5000\<rparr>)"
    by blast
  then have c: "heap (fst (connection scenario_both 13 (Some ''ABC12345'') (Some ''observer'') None
        ''unused'' ''unused'' 5000 ''2025-11-12T20:00:05.000Z'')) 0 =
       \<lparr>id_session = ''ABC12345'', hostId = ''s3cr3t'',
        guestId = Some ''7c9e6679-7425-40de-944b-e07fc1f90ae7'',
        hostWs = Some 11, guestWs = Some 12, createdAt = 1000, lastActivity = 5000\<rparr>"
    by (simp add: scenario_both_simps)
  from T have "\<forall>v m n t. m \<noteq> JNull \<and> \<not> type_raises m \<longrightarrow>
            sockets (fst (on_message v
                \<lparr>c_ws = 13, c_session = 0, c_role = ''observer'', c_sessionId = ''ABC12345''\<rparr>
                (Some m) n t)) =
              (case hostWs (heap v 0) of
                 None \<Rightarrow> sockets v
               | Some h \<Rightarrow>
                   if readyState (sockets v h) = 1
                   then (sockets v)(h := (sockets v h)
                          \<lparr>outbox := outbox (sockets v h) @
                             [JObject (map (\<lambda>(k, x). (k, JSON_stringify x))
                                (AList.update ''timestamp'' (JString t)
                                   (AList.update ''sender'' (JString ''observer'') (spread m))))]\<rparr>)
                   else sockets v)"
    by blast
  from this [rule_format, OF m, of scenario_both 6000 "''2025-11-12T20:00:06.000Z''"]
  have d: "outbox (sockets (fst (on_message scenario_both
          \<lparr>c_ws = 13, c_session = 0, c_role = ''observer'', c_sessionId = ''ABC12345''\<rparr>
          (Some (JObject [(''type'', JString ''message'')])) 6000 ''2025-11-12T20:00:06.000Z'')) 11) =
       [JObject [(''type'', JString ''connected''), (''role'', JString ''host''),
                 (''sessionId'', JString ''ABC12345''),
                 (''timestamp'', JString ''2025-11-12T20:00:02.000Z'')],
        JObject [(''type'', JString ''guest_joined''),
                 (''guestId'', JString ''7c9e6679-7425-40de-944b-e07fc1f90ae7''),
                 (''timestamp'', JString ''2025-11-12T20:00:03.000Z'')],
        JObject [(''type'', JString ''message''), (''sender'', JString ''observer''),
                 (''timestamp'', JString ''2025-11-12T20:00:06.000Z'')]]"
    by (simp add: scenario_both_simps connected_msg_def guest_joined_def json_of_id_def)
  from h1 h6 a b c d show ?thesis by blast
qed

text \<open>
  Claim C10 as stated fails: the empty string is a role that is neither \<open>host\<close> nor
  \<open>guest\<close>, and an attempt carrying it is closed with status 1008 without an
  acknowledgment; and a later message \<open>null\<close> of an accepted connection is not
  forwarded to the live host.
\<close>

theorem other_role_counterexample:
  "map_of (sessions scenario_both) ''ABC12345'' = Some 0
   \<and> '''' \<noteq> ''host'' \<and> '''' \<noteq> ''guest''
   \<and> snd (connection scenario_both 13 (Some ''ABC12345'') (Some '''') None
        ''unused'' ''unused'' 5000 ''2025-11-12T20:00:05.000Z'') = None
   \<and> outbox (sockets (fst (connection scenario_both 13 (Some ''ABC12345'') (Some '''') None
        ''unused'' ''unused'' 5000 ''2025-11-12T20:00:05.000Z'')) 13) = []
   \<and> closes (sockets (fst (connection scenario_both 13 (Some ''ABC12345'') (Some '''') None
        ''unused'' ''unused'' 5000 ''2025-11-12T20:00:05.000Z'')) 13) =
       [(Some 1008, Some ''Missing sessionId or role'')]
   \<and> hostWs (heap scenario_both 0) = Some 11
   \<and> readyState (sockets scenario_both 11) = 1
   \<and> outbox (sockets (fst (on_message scenario_both
          \<lparr>c_ws = 13, c_session = 0, c_role = ''observer'', c_sessionId = ''ABC12345''\<rparr>
          (Some JNull) 6000 ''2025-11-12T20:00:06.000Z'')) 11) =
       outbox (sockets scenario_both 11)"
proof -
  have o13: "sockets scenario_both 13 = \<lparr>readyState = 1, outbox = [], closes = []\<rparr>"
    by (simp add: scenario_both_def connection_def confirm_connection_def attach_guest_def
        falsy_def Let_def scenario_host_def scenario_created_simps sockets_ws_send)
  show ?thesis
    by (simp add: connection_def falsy_def Let_def on_message_result scenario_both_simps o13)
qed

section \<open>Binding and closing\<close>

text \<open>
  Claim C2. An attempt to bind as host to a registered session with a client id that is
  absent or differs from the session's \<open>hostId\<close> is turned away: no handler is
  registered, the socket is closed with status 1008 (policy violation), and no session
  object, registry entry or timer changes; in particular \<open>hostWs\<close> stays as it was.
\<close>

theorem host_secret_mismatch_rejected:
  assumes "map_of (sessions w) sid = Some a"
    and "clientId \<noteq> Some (hostId (heap w a))"
  shows "snd (connection w ws (Some sid) (Some ''host'') clientId uuid tj now tc) = None
       \<and> heap (fst (connection w ws (Some sid) (Some ''host'') clientId uuid tj now tc)) = heap w
       \<and> sessions (fst (connection w ws (Some sid) (Some ''host'') clientId uuid tj now tc)) =
           sessions w
       \<and> timeouts (fst (connection w ws (Some sid) (Some ''host'') clientId uuid tj now tc)) =
           timeouts w
       \<and> sockets (fst (connection w ws (Some sid) (Some ''host'') clientId uuid tj now tc)) =
           (sockets w)(ws := (sockets w ws)
              \<lparr>readyState := (if readyState (sockets w ws) = 3 then 3 else 2),
               closes := closes (sockets w ws) @
                 [(Some 1008, Some (if sid = [] then ''Missing sessionId or role''
                                    else ''Invalid host ID''))]\<rparr>)"
  using assms by (simp add: connection_def falsy_def Let_def)

theorem host_secret_mismatch_rejected_witness:
  "map_of (sessions scenario_created) ''ABC12345'' = Some 0
   \<and> Some ''guess'' \<noteq> Some (hostId (heap scenario_created 0))
   \<and> snd (connection scenario_created 11 (Some ''ABC12345'') (Some ''host'') (Some ''guess'')
        ''unused'' ''unused'' 2000 ''2025-11-12T20:00:02.000Z'') = None
   \<and> hostWs (heap (fst (connection scenario_created 11 (Some ''ABC12345'') (Some ''host'')
        (Some ''guess'') ''unused'' ''unused'' 2000 ''2025-11-12T20:00:02.000Z'')) 0) = None
   \<and> closes (sockets (fst (connection scenario_created 11 (Some ''ABC12345'') (Some ''host'')
        (Some ''guess'') ''unused'' ''unused'' 2000 ''2025-11-12T20:00:02.000Z'')) 11) =
       [(Some 1008, Some ''Invalid host ID'')]"
proof -
  have h1: "map_of (sessions scenario_created) ''ABC12345'' = Some 0"
    by (simp add: scenario_created_simps)
  have h2: "Some ''guess'' \<noteq> Some (hostId (heap scenario_created 0))"
    by (simp add: scenario_created_simps)
  from host_secret_mismatch_rejected [OF h1 h2, of 11 "''unused''" "''unused''" 2000
      "''2025-11-12T20:00:02.000Z''"]
  show ?thesis using h1 h2 by (simp add: scenario_created_simps)
qed

lemma on_close_heap:
  "heap (on_close w c ts) =
     (if c_role c = ''host''
      then (heap w)(c_session c := (heap w (c_session c))\<lparr>hostWs := None\<rparr>)
      else if c_role c = ''guest''
      then (heap w)(c_session c := (heap w (c_session c))\<lparr>guestWs := None\<rparr>)
      else heap w)"
  by (simp add: on_close_def Let_def split: option.splits)

lemma on_close_sockets:
  "sockets (on_close w c ts) =
     (if c_role c = ''host'' then
        (case guestWs (heap w (c_session c)) of
           None \<Rightarrow> sockets w
         | Some g \<Rightarrow> if readyState (sockets w g) = 1
                    then (sockets w)(g := (sockets w g)
                           \<lparr>outbox := outbox (sockets w g) @ [left_msg ''host_left'' ts]\<rparr>)
                    else sockets w)
      else if c_role c = ''guest'' then
        (case hostWs (heap w (c_session c)) of
           None \<Rightarrow> sockets w
         | Some h \<Rightarrow> if readyState (sockets w h) = 1
                    then (sockets w)(h := (sockets w h)
                           \<lparr>outbox := outbox (sockets w h) @ [left_msg ''guest_left'' ts]\<rparr>)
                    else sockets w)
      else sockets w)"
  by (simp add: on_close_def Let_def sockets_ws_send split: option.splits)

lemma on_close_sessions: "sessions (on_close w c ts) = sessions w"
  by (simp add: on_close_def Let_def split: option.splits)

lemma on_close_timeouts:
  "timeouts (on_close w c ts) = timeouts w @ [(300000, c_session c, c_sessionId c)]"
  by (simp add: on_close_def Let_def split: option.splits)

text \<open>
  Claim C3, as the code has it. When the socket of a connection bound as host or guest
  closes, that role's binding of the session becomes unbound and no other field of any
  session changes: \<open>lastActivity\<close> keeps its value. The peer's socket, when bound
  and OPEN, receives exactly one \<open>host_left\<close> or \<open>guest_left\<close> object with a
  timestamp, matching the role that closed; no other socket receives anything.
\<close>

theorem transport_close_detaches:
  assumes "c_role c = ''host'' \<or> c_role c = ''guest''"
  shows "heap (on_close w c ts) =
           (heap w)(c_session c :=
              (if c_role c = ''host'' then (heap w (c_session c))\<lparr>hostWs := None\<rparr>
               else (heap w (c_session c))\<lparr>guestWs := None\<rparr>))
       \<and> lastActivity (heap (on_close w c ts) (c_session c)) =
           lastActivity (heap w (c_session c))
       \<and> sockets (on_close w c ts) =
           (case (if c_role c = ''host'' then guestWs (heap w (c_session c))
                  else hostWs (heap w (c_session c))) of
              None \<Rightarrow> sockets w
            | Some p \<Rightarrow>
                if readyState (sockets w p) = 1
                then (sockets w)(p := (sockets w p)
                       \<lparr>outbox := outbox (sockets w p) @
                          [left_msg (if c_role c = ''host'' then ''host_left'' else ''guest_left'')
                             ts]\<rparr>)
                else sockets w)
       \<and> sessions (on_close w c ts) = sessions w"
  using assms by (auto simp: on_close_heap on_close_sockets on_close_sessions)

theorem transport_close_detaches_witness:
  "c_role guest_conn = ''guest''
   \<and> guestWs (heap (on_close scenario_both guest_conn ''2025-11-12T20:10:00.000Z'') 0) = None
   \<and> hostWs (heap (on_close scenario_both guest_conn ''2025-11-12T20:10:00.000Z'') 0) = Some 11
   \<and> outbox (sockets (on_close scenario_both guest_conn ''2025-11-12T20:10:00.000Z'') 11) =
       outbox (sockets scenario_both 11) @
         [JObject [(''type'', JString ''guest_left''),
                   (''timestamp'', JString ''2025-11-12T20:10:00.000Z'')]]"
proof -
  have h: "c_role guest_conn = ''host'' \<or> c_role guest_conn = ''guest''"
    by (simp add: guest_conn_def)
  from transport_close_detaches [OF h, of scenario_both "''2025-11-12T20:10:00.000Z''"]
  show ?thesis by (simp add: guest_conn_def scenario_both_simps left_msg_def)
qed

text \<open>
  Claim C3 as stated fails on \<open>lastActivity\<close>: the guest of the scenario bound at
  time 3000; its socket closes ten minutes later and \<open>lastActivity\<close> is still 3000.
\<close>

theorem close_keeps_lastActivity_counterexample:
  "lastActivity (heap scenario_both 0) = 3000
   \<and> lastActivity (heap (on_close scenario_both guest_conn ''2025-11-12T20:10:00.000Z'') 0) = 3000"
  by (simp add: on_close_heap guest_conn_def scenario_both_simps)


section \<open>The empty-session timer\<close>

lemma cleanup_empty_simps:
  "heap (cleanup_empty w a sid) = heap w"
  "sockets (cleanup_empty w a sid) = sockets w"
  "timeouts (cleanup_empty w a sid) = timeouts w"
  "sessions (cleanup_empty w a sid) =
     (if hostWs (heap w a) = None \<and> guestWs (heap w a) = None
      then AList.delete sid (sessions w) else sessions w)"
  by (simp_all add: cleanup_empty_def)

lemma fire_timeout_simps:
  assumes "i < length (timeouts w)" "timeouts w ! i = (d, a, sid)"
  shows "heap (fire_timeout w i) = heap w"
    "sockets (fire_timeout w i) = sockets w"
    "timeouts (fire_timeout w i) = take i (timeouts w) @ drop (Suc i) (timeouts w)"
    "sessions (fire_timeout w i) =
       (if hostWs (heap w a) = None \<and> guestWs (heap w a) = None
        then AList.delete sid (sessions w) else sessions w)"
  using assms by (simp_all add: fire_timeout_def cleanup_empty_simps)

lemma session_info_deleted:
  "sessions v = AList.delete sid xs \<Longrightarrow> session_info v sid = None"
  by (simp add: session_info_def delete_conv')

lemma connection_binds:
  assumes "snd (connection w ws (Some sid) (Some r) cl u tj n tc) \<noteq> None"
    and "r = ''host'' \<or> r = ''guest''"
    and "map_of (sessions w) sid = Some a"
  shows "hostWs (heap (fst (connection w ws (Some sid) (Some r) cl u tj n tc)) a) \<noteq> None
       \<or> guestWs (heap (fst (connection w ws (Some sid) (Some r) cl u tj n tc)) a) \<noteq> None"
    and "timeouts (fst (connection w ws (Some sid) (Some r) cl u tj n tc)) = timeouts w"
    and "sessions (fst (connection w ws (Some sid) (Some r) cl u tj n tc)) = sessions w"
  using assms
  by (auto simp: connection_def confirm_connection_def attach_guest_def falsy_def Let_def
      split: if_splits option.splits)

text \<open>
  Claim C5. Every close registers one timeout of five minutes for the session of the
  connection. When the event loop runs a pending timeout it leaves the list of pending
  timeouts (it fires once) and deletes the session id from the registry exactly when
  both bindings of the session are unbound at that moment; the session is then not
  found by the info query. A successful bind as host or guest to that session in the
  meantime leaves the registry as it was when the timeout runs. In particular, the close
  that leaves both bindings unbound registers a timeout which, run while they are still
  unbound, removes the session.
\<close>

theorem empty_session_reaper:
  "timeouts (on_close w c ts) = timeouts w @ [(5 * 60 * 1000, c_session c, c_sessionId c)]
   \<and> (i < length (timeouts w) \<and> timeouts w ! i = (d, a, sid) \<longrightarrow>
        timeouts (fire_timeout w i) = take i (timeouts w) @ drop (Suc i) (timeouts w)
      \<and> sessions (fire_timeout w i) =
          (if hostWs (heap w a) = None \<and> guestWs (heap w a) = None
           then AList.delete sid (sessions w) else sessions w)
      \<and> (hostWs (heap w a) = None \<and> guestWs (heap w a) = None \<longrightarrow>
            session_info (fire_timeout w i) sid = None)
      \<and> (map_of (sessions w) sid = Some a
           \<and> snd (connection w ws (Some sid) (Some r) cl u tj n tc) \<noteq> None
           \<and> (r = ''host'' \<or> r = ''guest'') \<longrightarrow>
            sessions (fire_timeout (fst (connection w ws (Some sid) (Some r) cl u tj n tc)) i) =
              sessions w))
   \<and> (c_role c = ''host'' \<and> guestWs (heap w (c_session c)) = None
        \<or> c_role c = ''guest'' \<and> hostWs (heap w (c_session c)) = None \<longrightarrow>
        hostWs (heap (on_close w c ts) (c_session c)) = None
      \<and> guestWs (heap (on_close w c ts) (c_session c)) = None
      \<and> session_info (fire_timeout (on_close w c ts) (length (timeouts w))) (c_sessionId c) = None)"
proof -
  have p1: "timeouts (on_close w c ts) = timeouts w @ [(5 * 60 * 1000, c_session c, c_sessionId c)]"
    by (simp add: on_close_timeouts)
  have p2: "timeouts (fire_timeout w i) = take i (timeouts w) @ drop (Suc i) (timeouts w)
      \<and> sessions (fire_timeout w i) =
          (if hostWs (heap w a) = None \<and> guestWs (heap w a) = None
           then AList.delete sid (sessions w) else sessions w)
      \<and> (hostWs (heap w a) = None \<and> guestWs (heap w a) = None \<longrightarrow>
            session_info (fire_timeout w i) sid = None)
      \<and> (map_of (sessions w) sid = Some a
           \<and> snd (connection w ws (Some sid) (Some r) cl u tj n tc) \<noteq> None
           \<and> (r = ''host'' \<or> r = ''guest'') \<longrightarrow>
            sessions (fire_timeout (fst (connection w ws (Some sid) (Some r) cl u tj n tc)) i) =
              sessions w)"
    if h: "i < length (timeouts w)" "timeouts w ! i = (d, a, sid)"
  proof -
    note f = fire_timeout_simps [OF h]
    have a3: "session_info (fire_timeout w i) sid = None"
      if "hostWs (heap w a) = None \<and> guestWs (heap w a) = None"
      using f(4) that by (simp add: session_info_deleted)
    have a4: "sessions (fire_timeout (fst (connection w ws (Some sid) (Some r) cl u tj n tc)) i) =
              sessions w"
      if k: "map_of (sessions w) sid = Some a"
        "snd (connection w ws (Some sid) (Some r) cl u tj n tc) \<noteq> None"
        "r = ''host'' \<or> r = ''guest''"
    proof -
      let ?v = "fst (connection w ws (Some sid) (Some r) cl u tj n tc)"
      note b = connection_binds [OF k(2) k(3) k(1)]
      have "i < length (timeouts ?v)" "timeouts ?v ! i = (d, a, sid)"
        using h b(2) by simp_all
      from fire_timeout_simps(4) [OF this] b(1) b(3) show ?thesis by auto
    qed
    from f(3) f(4) a3 a4 show ?thesis by blast
  qed
  have p3: "hostWs (heap (on_close w c ts) (c_session c)) = None
      \<and> guestWs (heap (on_close w c ts) (c_session c)) = None
      \<and> session_info (fire_timeout (on_close w c ts) (length (timeouts w))) (c_sessionId c) = None"
    if h: "c_role c = ''host'' \<and> guestWs (heap w (c_session c)) = None
        \<or> c_role c = ''guest'' \<and> hostWs (heap w (c_session c)) = None"
  proof -
    have u: "hostWs (heap (on_close w c ts) (c_session c)) = None"
      "guestWs (heap (on_close w c ts) (c_session c)) = None"
      using h by (auto simp: on_close_heap)
    have "length (timeouts w) < length (timeouts (on_close w c ts))"
      "timeouts (on_close w c ts) ! length (timeouts w) = (300000, c_session c, c_sessionId c)"
      by (simp_all add: on_close_timeouts)
    from fire_timeout_simps(4) [OF this] u
    have "sessions (fire_timeout (on_close w c ts) (length (timeouts w))) =
        AList.delete (c_sessionId c) (sessions (on_close w c ts))"
      by simp
    then show ?thesis using u by (simp add: session_info_deleted)
  qed
  from p1 p2 p3 show ?thesis by blast
qed




theorem empty_session_reaper_witness:
  "timeouts (on_close scenario_both guest_conn ''2025-11-12T20:10:00.000Z'') ! 0 =
     (300000, 0, ''ABC12345'')
   \<and> c_role host_conn = ''host''
   \<and> guestWs (heap (on_close scenario_both guest_conn ''2025-11-12T20:10:00.000Z'')
        (c_session host_conn)) = None
   \<and> sessions (fire_timeout (on_close scenario_both guest_conn ''2025-11-12T20:10:00.000Z'') 0) =
       [(''ABC12345'', 0)]
   \<and> session_info
        (fire_timeout
           (on_close (on_close scenario_both guest_conn ''2025-11-12T20:10:00.000Z'') host_conn
              ''2025-11-12T20:11:00.000Z'')
           (length (timeouts (on_close scenario_both guest_conn ''2025-11-12T20:10:00.000Z''))))
        (c_sessionId host_conn) = None"
proof -
  let ?W = "on_close scenario_both guest_conn ''2025-11-12T20:10:00.000Z''"
  have t: "timeouts ?W = [(300000, 0, ''ABC12345'')]"
    by (simp add: on_close_timeouts scenario_both_simps guest_conn_def)
  have h: "heap ?W 0 = \<lparr>id_session = ''ABC12345'', hostId = ''s3cr3t'',
      guestId = Some ''7c9e6679-7425-40de-944b-e07fc1f90ae7'',
      hostWs = Some 11, guestWs = None, createdAt = 1000, lastActivity = 3000\<rparr>"
    by (simp add: on_close_heap scenario_both_simps guest_conn_def)
  have s: "sessions ?W = [(''ABC12345'', 0)]"
    by (simp add: on_close_sessions scenario_both_simps)
  from empty_session_reaper [where w = ?W and c = host_conn
      and ts = "''2025-11-12T20:11:00.000Z''" and i = 0 and d = 300000 and a = 0
      and sid = "''ABC12345''"]
  show ?thesis using t h s by (simp add: host_conn_def)
qed

section \<open>The idle sweep\<close>

lemma sweep_step_simps:
  "heap (sweep_step now (sid, a) w) = heap w"
  "timeouts (sweep_step now (sid, a) w) = timeouts w"
  "sessions (sweep_step now (sid, a) w) =
     (if now - lastActivity (heap w a) > 30 * 60 * 1000
      then AList.delete sid (sessions w) else sessions w)"
  by (simp_all add: sweep_step_def Let_def split: option.splits)

lemma sweep_fold_heap: "heap (fold (sweep_step now) xs w) = heap w"
  by (induction xs arbitrary: w) (auto simp: sweep_step_simps)

lemma sweep_fold_sessions:
  "map_of (sessions (fold (sweep_step now) xs w)) sid =
     (if \<exists>a. (sid, a) \<in> set xs \<and> now - lastActivity (heap w a) > 30 * 60 * 1000
      then None else map_of (sessions w) sid)"
proof (induction xs arbitrary: w)
  case Nil
  show ?case by simp
next
  case (Cons e xs)
  obtain sid' a' where e: "e = (sid', a')" by (cases e)
  show ?case
    unfolding e fold_simps Cons.IH sweep_step_simps
    by (auto simp: delete_conv')
qed

lemma sweep_step_closes_mono:
  "length (closes (sockets w h)) \<le> length (closes (sockets (sweep_step now e w) h))"
  by (cases e) (simp add: sweep_step_def Let_def split: option.splits)

lemma sweep_fold_closes_mono:
  "length (closes (sockets w h)) \<le> length (closes (sockets (fold (sweep_step now) xs w) h))"
proof (induction xs arbitrary: w)
  case Nil
  show ?case by simp
next
  case (Cons e xs)
  have "length (closes (sockets w h)) \<le> length (closes (sockets (sweep_step now e w) h))"
    by (rule sweep_step_closes_mono)
  also have "\<dots> \<le> length (closes (sockets (fold (sweep_step now) xs (sweep_step now e w)) h))"
    by (rule Cons.IH)
  finally show ?case by simp
qed

lemma sweep_step_closes_bound:
  assumes "now - lastActivity (heap w a) > 30 * 60 * 1000"
    and "hostWs (heap w a) = Some h \<or> guestWs (heap w a) = Some h"
  shows "length (closes (sockets w h)) < length (closes (sockets (sweep_step now (sid, a) w) h))"
  using assms by (auto simp: sweep_step_def Let_def split: option.splits)

lemma sweep_fold_closes_bound:
  assumes "(sid, a) \<in> set xs" "now - lastActivity (heap w a) > 30 * 60 * 1000"
    and "hostWs (heap w a) = Some h \<or> guestWs (heap w a) = Some h"
  shows "length (closes (sockets w h)) < length (closes (sockets (fold (sweep_step now) xs w) h))"
  using assms
proof (induction xs arbitrary: w)
  case Nil
  then show ?case by simp
next
  case (Cons e xs)
  obtain sid' a' where e: "e = (sid', a')" by (cases e)
  show ?case
  proof (cases "e = (sid, a)")
    case True
    have "length (closes (sockets w h)) < length (closes (sockets (sweep_step now (sid, a) w) h))"
      using Cons.prems(2,3) by (rule sweep_step_closes_bound)
    also have "\<dots> \<le> length (closes (sockets (fold (sweep_step now) xs (sweep_step now (sid, a) w)) h))"
      by (rule sweep_fold_closes_mono)
    finally show ?thesis using True by simp
  next
    case False
    then have m: "(sid, a) \<in> set xs" using Cons.prems(1) by simp
    have hp: "heap (sweep_step now e w) = heap w" unfolding e by (simp add: sweep_step_simps)
    have "length (closes (sockets w h)) \<le> length (closes (sockets (sweep_step now e w) h))"
      by (rule sweep_step_closes_mono)
    also have "\<dots> < length (closes (sockets (fold (sweep_step now) xs (sweep_step now e w)) h))"
      using Cons.IH [OF m] Cons.prems(2,3) hp by simp
    finally show ?thesis by simp
  qed
qed

lemma ws_close_not_open:
  "readyState (sockets w h) \<noteq> 1 \<Longrightarrow> readyState (sockets (ws_close w g cd rs) h) \<noteq> 1"
  "readyState (sockets (ws_close w h cd rs) h) \<noteq> 1"
  by simp_all

lemma sweep_step_not_open:
  "readyState (sockets w h) \<noteq> 1 \<Longrightarrow> readyState (sockets (sweep_step now e w) h) \<noteq> 1"
  by (cases e) (simp add: sweep_step_def Let_def split: option.splits)

lemma sweep_fold_not_open:
  "readyState (sockets w h) \<noteq> 1 \<Longrightarrow> readyState (sockets (fold (sweep_step now) xs w) h) \<noteq> 1"
proof (induction xs arbitrary: w)
  case Nil
  then show ?case by simp
next
  case (Cons e xs)
  from Cons.prems have "readyState (sockets (sweep_step now e w) h) \<noteq> 1"
    by (rule sweep_step_not_open)
  from Cons.IH [OF this] show ?case by simp
qed

lemma sweep_step_closed_bound:
  assumes "now - lastActivity (heap w a) > 30 * 60 * 1000"
    and "hostWs (heap w a) = Some h \<or> guestWs (heap w a) = Some h"
  shows "readyState (sockets (sweep_step now (sid, a) w) h) \<noteq> 1"
  using assms by (auto simp: sweep_step_def Let_def split: option.splits)

lemma sweep_fold_closed_bound:
  assumes "(sid, a) \<in> set xs" "now - lastActivity (heap w a) > 30 * 60 * 1000"
    and "hostWs (heap w a) = Some h \<or> guestWs (heap w a) = Some h"
  shows "readyState (sockets (fold (sweep_step now) xs w) h) \<noteq> 1"
  using assms
proof (induction xs arbitrary: w)
  case Nil
  then show ?case by simp
next
  case (Cons e xs)
  obtain sid' a' where e: "e = (sid', a')" by (cases e)
  show ?case
  proof (cases "e = (sid, a)")
    case True
    have "readyState (sockets (sweep_step now (sid, a) w) h) \<noteq> 1"
      using Cons.prems(2,3) by (rule sweep_step_closed_bound)
    then have "readyState (sockets (fold (sweep_step now) xs (sweep_step now (sid, a) w)) h) \<noteq> 1"
      by (rule sweep_fold_not_open)
    then show ?thesis using True by simp
  next
    case False
    then have m: "(sid, a) \<in> set xs" using Cons.prems(1) by simp
    have hp: "heap (sweep_step now e w) = heap w" unfolding e by (simp add: sweep_step_simps)
    show ?thesis using Cons.IH [OF m] Cons.prems(2,3) hp by simp
  qed
qed



text \<open>
  The keys of the registry are pairwise different, as those of a \<open>Map\<close> are: the
  property holds at start-up and every handler keeps it.
\<close>

lemma registry_distinct_initial: "distinct (map fst (sessions initial_world))"
  by (simp add: initial_world_def)

lemma registry_distinct_create:
  "distinct (map fst (sessions w)) \<Longrightarrow>
   distinct (map fst (sessions (fst (create_session g w u1 u2 n1 n2))))"
  by (simp add: sessions_create_session distinct_update)

lemma registry_connection:
  "sessions (fst (connection w ws sessionId role clientId uuid tj now tc)) = sessions w"
  by (auto simp: connection_def confirm_connection_def attach_guest_def Let_def
      split: option.splits)

lemma registry_on_message: "sessions (fst (on_message w c p now ts)) = sessions w"
proof (cases p)
  case None
  then show ?thesis by (simp add: on_message_def)
next
  case (Some m)
  show ?thesis unfolding Some on_message_result
    by (auto simp: Let_def split: option.splits)
qed

lemma registry_distinct_fire_timeout:
  "distinct (map fst (sessions w)) \<Longrightarrow> distinct (map fst (sessions (fire_timeout w i)))"
  by (auto simp: fire_timeout_def cleanup_empty_simps distinct_delete split: prod.splits)

lemma registry_distinct_sweep:
  "distinct (map fst (sessions w)) \<Longrightarrow> distinct (map fst (sessions (sweep w now)))"
proof -
  have "distinct (map fst (sessions v)) \<Longrightarrow>
        distinct (map fst (sessions (fold (sweep_step now) xs v)))" for xs v
  proof (induction xs arbitrary: v)
    case Nil
    then show ?case by simp
  next
    case (Cons e xs)
    obtain sid a where e: "e = (sid, a)" by (cases e)
    have "distinct (map fst (sessions (sweep_step now e v)))"
      using Cons.prems unfolding e by (simp add: sweep_step_simps distinct_delete)
    from Cons.IH [OF this] show ?case by simp
  qed
  then show "distinct (map fst (sessions w)) \<Longrightarrow> distinct (map fst (sessions (sweep w now)))"
    by (simp add: sweep_def)
qed

lemma sweep_step_order:
  assumes "now - lastActivity (heap w a) > 30 * 60 * 1000"
  shows "\<exists>v. sweep_step now (sid, a) w =
            console_log (v\<lparr>sessions := AList.delete sid (sessions v)\<rparr>) (SessionTimedOut sid)
          \<and> sessions v = sessions w
          \<and> (\<forall>h. hostWs (heap w a) = Some h \<or> guestWs (heap w a) = Some h \<longrightarrow>
                length (closes (sockets w h)) < length (closes (sockets v h)))"
proof -
  let ?w1 = "case hostWs (heap w a) of None \<Rightarrow> w | Some h \<Rightarrow> ws_close w h None None"
  let ?w2 = "case guestWs (heap ?w1 a) of None \<Rightarrow> ?w1 | Some g \<Rightarrow> ws_close ?w1 g None None"
  have "sweep_step now (sid, a) w =
      console_log (?w2\<lparr>sessions := AList.delete sid (sessions ?w2)\<rparr>) (SessionTimedOut sid)"
    using assms by (simp add: sweep_step_def Let_def)
  moreover have "sessions ?w2 = sessions w"
    by (simp split: option.splits)
  moreover have "\<forall>h. hostWs (heap w a) = Some h \<or> guestWs (heap w a) = Some h \<longrightarrow>
                length (closes (sockets w h)) < length (closes (sockets ?w2 h))"
    by (auto split: option.splits)
  ultimately show ?thesis by blast
qed

text \<open>
  Claim C6. Take any session of the registry at a tick of the sweep. If the age of its
  \<open>lastActivity\<close> exceeds thirty minutes, it is gone from the registry after the
  tick whatever its bindings, each socket bound to it has received one more
  \<open>close\<close> call and is no longer OPEN, and in its round of the loop the deletion is
  applied to a state in which the session is still registered and those calls have been
  made. If the age does not exceed thirty minutes, the session is still registered after
  the tick. The sweep changes no session object.
\<close>

theorem idle_sweep:
  assumes "distinct (map fst (sessions w))"
    and "map_of (sessions w) sid = Some a"
  shows "(now - lastActivity (heap w a) > 30 * 60 * 1000 \<longrightarrow>
            map_of (sessions (sweep w now)) sid = None
          \<and> session_info (sweep w now) sid = None
          \<and> (\<forall>h. hostWs (heap w a) = Some h \<or> guestWs (heap w a) = Some h \<longrightarrow>
                length (closes (sockets w h)) < length (closes (sockets (sweep w now) h))
              \<and> readyState (sockets (sweep w now) h) \<noteq> 1)
          \<and> (\<exists>v. sweep_step now (sid, a) w =
                  console_log (v\<lparr>sessions := AList.delete sid (sessions v)\<rparr>)
                    (SessionTimedOut sid)
                \<and> sessions v = sessions w
                \<and> (\<forall>h. hostWs (heap w a) = Some h \<or> guestWs (heap w a) = Some h \<longrightarrow>
                      length (closes (sockets w h)) < length (closes (sockets v h)))))
       \<and> (\<not> now - lastActivity (heap w a) > 30 * 60 * 1000 \<longrightarrow>
            map_of (sessions (sweep w now)) sid = Some a)
       \<and> heap (sweep w now) = heap w"
proof -
  have mem: "(sid, a) \<in> set (sessions w)"
    using assms(2) by (rule map_of_SomeD)
  have uniq: "a' = a" if "(sid, a') \<in> set (sessions w)" for a'
    using that assms by simp
  have out: "map_of (sessions (sweep w now)) sid = None"
    if "now - lastActivity (heap w a) > 30 * 60 * 1000"
    unfolding sweep_def sweep_fold_sessions using mem that by auto
  have stay: "map_of (sessions (sweep w now)) sid = Some a"
    if "\<not> now - lastActivity (heap w a) > 30 * 60 * 1000"
    unfolding sweep_def sweep_fold_sessions using uniq that assms(2) by auto
  have info: "session_info (sweep w now) sid = None"
    if "now - lastActivity (heap w a) > 30 * 60 * 1000"
    using out [OF that] by (simp add: session_info_def)
  have cl: "length (closes (sockets w h)) < length (closes (sockets (sweep w now) h))
              \<and> readyState (sockets (sweep w now) h) \<noteq> 1"
    if "now - lastActivity (heap w a) > 30 * 60 * 1000"
      "hostWs (heap w a) = Some h \<or> guestWs (heap w a) = Some h" for h
    unfolding sweep_def
    using sweep_fold_closes_bound [OF mem that] sweep_fold_closed_bound [OF mem that] by simp
  have hp: "heap (sweep w now) = heap w"
    by (simp add: sweep_def sweep_fold_heap)
  from out stay info cl hp sweep_step_order [of now w a sid] show ?thesis by blast
qed

theorem idle_sweep_witness:
  "distinct (map fst (sessions scenario_both))
   \<and> map_of (sessions scenario_both) ''ABC12345'' = Some 0
   \<and> 1803001 - lastActivity (heap scenario_both 0) > 30 * 60 * 1000
   \<and> hostWs (heap scenario_both 0) = Some 11 \<and> guestWs (heap scenario_both 0) = Some 12
   \<and> session_info (sweep scenario_both 1803001) ''ABC12345'' = None
   \<and> readyState (sockets (sweep scenario_both 1803001) 11) \<noteq> 1
   \<and> readyState (sockets (sweep scenario_both 1803001) 12) \<noteq> 1
   \<and> \<not> 1803000 - lastActivity (heap scenario_both 0) > 30 * 60 * 1000
   \<and> map_of (sessions (sweep scenario_both 1803000)) ''ABC12345'' = Some 0"
proof -
  have h1: "distinct (map fst (sessions scenario_both))"
    by (simp add: scenario_both_simps)
  have h2: "map_of (sessions scenario_both) ''ABC12345'' = Some 0"
    by (simp add: scenario_both_simps)
  from idle_sweep [OF h1 h2, of 1803001] idle_sweep [OF h1 h2, of 1803000]
  show ?thesis using h1 h2 by (simp add: scenario_both_simps)
qed

end
